theory Spec2Isabelle
  imports Complex_Main "HOL-Library.AList"
begin

section \<open>The one-dimensional coordinate classes of podpac/core/coordinate.py\<close>

text \<open>
  The coordinate values are Python floats; they are modelled as real numbers, so every
  result below is exact arithmetic (no rounding, no NaN, no infinity).  On the concrete
  inputs that are evaluated here (small integers) float arithmetic is exact as well.
  Datetime coordinates are not modelled.  Every exception of the source is a value of
  the type \<open>error\<close>; a function that can raise returns \<open>error + 'a\<close>.
\<close>

datatype error =
    RequiresNumOrStep
  | NumAndStep
  | SingleMultipleValues
  | NonUniformNdim
  | InvalidDimension string
  | RepeatedDimension string
  | StackedSizeMismatch string string
  | CoordsTypeNotRecognized
  | GridCoordSameType
  | NotImplementedError
  | ZeroDivisionError
  | IndexError
  | KeyError
  | TypeError
  | ValueError
  | TraitError
  | NonFiniteFloat

datatype ctype = Segment | Point | Fence | Post

record kwargs =
  units :: "string option"
  ctype :: ctype
  segment_position :: real
  extents :: "real list option"

definition default_kwargs :: kwargs where
  "default_kwargs =
     \<lparr>units = None, ctype = Segment, segment_position = 1 / 2, extents = None\<rparr>"

record UniformGridCoord =
  start :: real
  stop :: real
  num :: "int option"
  step :: "real option"
  epsg :: "string option"
  kw :: kwargs

datatype Coord =
    Single real kwargs
  | Grid "real list" kwargs
  | Uniform UniformGridCoord

text \<open>What a 1-d intersection returns: \<open>[start, stop]\<close> indices when \<open>ind\<close> is true,
  a coordinate object otherwise.\<close>

datatype ibresult = Indices int int | Object Coord

subsection \<open>numpy helpers\<close>

text \<open>\<open>np.arange(a, b, s)\<close>: \<open>ceil((b - a) / s)\<close> values \<open>a + i * s\<close> (none when that
  count is not positive); a zero step raises.\<close>

definition arange :: "real \<Rightarrow> real \<Rightarrow> real \<Rightarrow> error + real list" where
  "arange a b s =
     (if s = 0 then Inl ZeroDivisionError
      else Inr (map (\<lambda>i. a + real i * s) [0..<nat \<lceil>(b - a) / s\<rceil>]))"

text \<open>\<open>np.linspace(a, b, n)\<close> with the end point included.\<close>

definition linspace :: "real \<Rightarrow> real \<Rightarrow> int \<Rightarrow> error + real list" where
  "linspace a b n =
     (if n < 0 then Inl ValueError
      else if n = 1 then Inr [a]
      else Inr (map (\<lambda>i. a + real i * ((b - a) / real_of_int (n - 1))) [0..<nat n]))"

text \<open>\<open>xs[l:r]\<close> with Python's treatment of negative and out-of-range indices.\<close>

definition py_slice :: "'a list \<Rightarrow> int \<Rightarrow> int \<Rightarrow> 'a list" where
  "py_slice xs l r =
     (let n = int (length xs);
          l' = (if l < 0 then max 0 (l + n) else min l n);
          r' = (if r < 0 then max 0 (r + n) else min r n)
      in take (nat (r' - l')) (drop (nat l') xs))"

subsection \<open>Constructors (the trait validators)\<close>

text \<open>\<open>SingleCoord._coords_validate\<close>: the value must hold exactly one element.\<close>

definition SingleCoord_init :: "real list \<Rightarrow> kwargs \<Rightarrow> error + Coord" where
  "SingleCoord_init val k =
     (if length val \<noteq> 1 then Inl SingleMultipleValues else Inr (Single (hd val) k))"

text \<open>\<open>GridCoord._coords_validate\<close>: the value is squeezed, so a one-element sequence
  becomes 0-dimensional and is rejected; \<open>val[0]\<close> of an empty array raises.\<close>

definition GridCoord_init :: "real list \<Rightarrow> kwargs \<Rightarrow> error + Coord" where
  "GridCoord_init val k =
     (if length val = 1 then Inl NonUniformNdim
      else if val = [] then Inl IndexError
      else Inr (Grid val k))"

text \<open>\<open>UniformGridCoord.__init__\<close>.  With \<open>coords\<close> given, \<open>start\<close> and \<open>stop\<close> come from
  it and its third entry is bound to the local name \<open>size\<close>, which is not used again:
  \<open>num\<close> and \<open>step\<close> stay as passed.\<close>

definition UniformGridCoord_init ::
  "(real \<times> real \<times> int) option \<Rightarrow> real option \<Rightarrow> real option \<Rightarrow> int option \<Rightarrow> real option
     \<Rightarrow> kwargs \<Rightarrow> error + Coord" where
  "UniformGridCoord_init coords start0 stop0 num0 step0 k =
     (let (start1, stop1) =
            (case coords of
               Some (a, b, size0) \<Rightarrow> (Some a, Some b)
             | None \<Rightarrow> (start0, stop0))
      in if num0 = None \<and> step0 = None then Inl RequiresNumOrStep
         else if num0 \<noteq> None \<and> step0 \<noteq> None then Inl NumAndStep
         else (case (start1, stop1) of
                 (Some a, Some b) \<Rightarrow>
                   Inr (Uniform \<lparr>start = a, stop = b, num = num0, step = step0,
                                 epsg = None, kw = k\<rparr>)
               | _ \<Rightarrow> Inl TraitError))"

subsection \<open>SingleCoord\<close>

text \<open>\<open>np.sqrt(np.finfo(np.float32).eps)\<close>, the machine epsilon of float32 being \<open>2^-23\<close>.\<close>

definition SingleCoord_delta :: real where
  "SingleCoord_delta = sqrt (1 / 2 ^ 23)"

definition SingleCoord_bounds :: "real \<Rightarrow> real \<times> real" where
  "SingleCoord_bounds c = (c - SingleCoord_delta, c + SingleCoord_delta)"

subsection \<open>GridCoord\<close>

definition GridCoord_bounds :: "real list \<Rightarrow> error + real \<times> real" where
  "GridCoord_bounds cs =
     (if cs = [] then Inl IndexError else Inr (Min (set cs), Max (set cs)))"

definition GridCoord_is_max_to_min :: "real list \<Rightarrow> error + bool" where
  "GridCoord_is_max_to_min cs =
     (if cs = [] then Inl IndexError else Inr (hd cs > last cs))"

definition GridCoord_delta :: "real list \<Rightarrow> error + real" where
  "GridCoord_delta cs =
     (case GridCoord_is_max_to_min cs of
        Inl e \<Rightarrow> Inl e
      | Inr desc \<Rightarrow>
          Inr ((last cs - hd cs) / real (length cs) * (1 - 2 * (if desc then 1 else 0))))"

definition GridCoord_intersect_bounds ::
  "real list \<Rightarrow> kwargs \<Rightarrow> real list \<Rightarrow> int \<Rightarrow> bool \<Rightarrow> error + ibresult" where
  "GridCoord_intersect_bounds cs k bounds pad ind =
     (if length bounds < 2 then Inl IndexError
      else case GridCoord_delta cs of
        Inl e \<Rightarrow> Inl e
      | Inr d \<Rightarrow>
         (let inds = filter (\<lambda>i. cs ! i \<ge> bounds ! 0 - d \<and> cs ! i \<le> bounds ! 1 + d)
                       [0..<length cs]
          in if inds = [] then
               (if ind then Inr (Indices 0 0)
                else case GridCoord_bounds cs of
                       Inl e \<Rightarrow> Inl e
                     | Inr (lo, hi) \<Rightarrow>
                         (case GridCoord_init [lo, hi, 0] default_kwargs of
                            Inl e \<Rightarrow> Inl e
                          | Inr c \<Rightarrow> Inr (Object c)))
             else
               (let lefti = max 0 (int (hd inds) - pad);
                    righti = min (int (last inds) + pad + 1) (int (length cs))
                in if ind then Inr (Indices lefti righti)
                   else case GridCoord_init (py_slice cs lefti righti) k of
                          Inl e \<Rightarrow> Inl e
                        | Inr c \<Rightarrow> Inr (Object c))))"

subsection \<open>UniformGridCoord\<close>

definition UniformGridCoord_is_max_to_min :: "UniformGridCoord \<Rightarrow> bool" where
  "UniformGridCoord_is_max_to_min u = (start u > stop u)"

definition UniformGridCoord_bounds :: "UniformGridCoord \<Rightarrow> real \<times> real" where
  "UniformGridCoord_bounds u =
     (if UniformGridCoord_is_max_to_min u then (stop u, start u) else (start u, stop u))"

definition UniformGridCoord_delta :: "UniformGridCoord \<Rightarrow> error + real" where
  "UniformGridCoord_delta u =
     (case step u of
        Some s \<Rightarrow> Inr s
      | None \<Rightarrow>
         (case num u of
            None \<Rightarrow> Inl TypeError
          | Some n \<Rightarrow>
              if n = 0 then Inl ZeroDivisionError
              else (let d = (stop u - start u + 1) / real_of_int n
                    in Inr (if UniformGridCoord_is_max_to_min u then d * (- 1) else d))))"

definition UniformGridCoord_size :: "UniformGridCoord \<Rightarrow> error + int" where
  "UniformGridCoord_size u =
     (case num u of
        Some n \<Rightarrow> Inr n
      | None \<Rightarrow>
         (case step u of
            None \<Rightarrow> Inl TypeError
          | Some s \<Rightarrow>
              if s = 0 then Inl ZeroDivisionError
              else Inr (max 0 \<lceil>(start u - stop u) / s\<rceil>)))"

definition UniformGridCoord_coordinates :: "UniformGridCoord \<Rightarrow> error + real list" where
  "UniformGridCoord_coordinates u =
     (case step u of
        Some s \<Rightarrow>
          (case UniformGridCoord_delta u of
             Inl e \<Rightarrow> Inl e
           | Inr d \<Rightarrow> arange (start u) (stop u + d) s)
      | None \<Rightarrow>
          (case UniformGridCoord_size u of
             Inl e \<Rightarrow> Inl e
           | Inr n \<Rightarrow> linspace (start u) (stop u) n))"

text \<open>
  \<open>UniformGridCoord.intersect_bounds\<close>.  Its first two statements assign to the entries
  of the caller's \<open>bounds\<close> sequence, so the model returns the sequence as the call leaves
  it next to the result (also when the call raises later).  With a zero \<open>delta\<close> the source
  divides numpy floats and goes on with an infinity or a NaN, which the real numbers do
  not have: the model stops there with the marker \<open>NonFiniteFloat\<close> and says nothing
  about what the source returns in that case.
\<close>

definition UniformGridCoord_intersect_bounds ::
  "UniformGridCoord \<Rightarrow> real list \<Rightarrow> int \<Rightarrow> bool \<Rightarrow> (error + ibresult) \<times> real list" where
  "UniformGridCoord_intersect_bounds u bounds pad ind =
     (let (lo, hi) = UniformGridCoord_bounds u in
      if length bounds < 1 then (Inl IndexError, bounds)
      else let bounds1 = bounds[0 := max lo (bounds ! 0)] in
      if length bounds1 < 2 then (Inl IndexError, bounds1)
      else let bounds2 = bounds1[1 := min hi (bounds1 ! 1)] in
      (case UniformGridCoord_delta u of
         Inl e \<Rightarrow> (Inl e, bounds2)
       | Inr d \<Rightarrow>
          if d = 0 then (Inl NonFiniteFloat, bounds2)
          else
            (let imin = \<lfloor>(bounds2 ! 0 - lo) / d\<rfloor>;
                 imax = \<lceil>(hi - bounds2 ! 1) / d\<rceil>
             in if ind then
                  (case UniformGridCoord_size u of
                     Inl e \<Rightarrow> (Inl e, bounds2)
                   | Inr sz \<Rightarrow>
                      (let (imin1, imax1) =
                             (if UniformGridCoord_is_max_to_min u then (imax, imin)
                              else (imin, imax));
                           imin2 = min sz (max 0 (imin1 - pad));
                           imax2 = min sz (max 0 (sz - imax1 + pad))
                       in (Inr (Indices imin2 imax2), bounds2)))
                else
                  (let cmin = max lo (lo + real_of_int (max 0 (imin - pad)) * d);
                       cmax = min hi (hi - real_of_int (max 0 (imax - pad)) * d);
                       (cmin1, cmax1) =
                          (if UniformGridCoord_is_max_to_min u then (cmax, cmin)
                           else (cmin, cmax))
                   in (case UniformGridCoord_init None (Some cmin1) (Some cmax1) None (Some d)
                              (kw u) of
                         Inl e \<Rightarrow> (Inl e, bounds2)
                       | Inr c \<Rightarrow> (Inr (Object c), bounds2))))))"

subsection \<open>Dispatch over the three classes\<close>

definition Coord_units :: "Coord \<Rightarrow> string option" where
  "Coord_units c =
     (case c of Single v k \<Rightarrow> units k | Grid cs k \<Rightarrow> units k | Uniform u \<Rightarrow> units (kw u))"

definition Coord_bounds :: "Coord \<Rightarrow> error + real \<times> real" where
  "Coord_bounds c =
     (case c of
        Single v k \<Rightarrow> Inr (SingleCoord_bounds v)
      | Grid cs k \<Rightarrow> GridCoord_bounds cs
      | Uniform u \<Rightarrow> Inr (UniformGridCoord_bounds u))"

definition Coord_size :: "Coord \<Rightarrow> error + int" where
  "Coord_size c =
     (case c of
        Single v k \<Rightarrow> Inr 1
      | Grid cs k \<Rightarrow> Inr (int (length cs))
      | Uniform u \<Rightarrow> UniformGridCoord_size u)"

definition Coord_coordinates :: "Coord \<Rightarrow> error + real list" where
  "Coord_coordinates c =
     (case c of
        Single v k \<Rightarrow> Inr [v]
      | Grid cs k \<Rightarrow> Inr cs
      | Uniform u \<Rightarrow> UniformGridCoord_coordinates u)"

definition Coord_is_max_to_min :: "Coord \<Rightarrow> error + bool" where
  "Coord_is_max_to_min c =
     (case c of
        Single v k \<Rightarrow> Inr False
      | Grid cs k \<Rightarrow> GridCoord_is_max_to_min cs
      | Uniform u \<Rightarrow> Inr (UniformGridCoord_is_max_to_min u))"

text \<open>\<open>self.__class__(coords=(self.bounds[0], self.bounds[1], 0))\<close>, the object the code
  builds for an empty intersection.\<close>

definition Coord_class_init :: "Coord \<Rightarrow> real \<times> real \<times> int \<Rightarrow> error + Coord" where
  "Coord_class_init c t =
     (case t of (a, b, n) \<Rightarrow>
        (case c of
           Single v k \<Rightarrow> SingleCoord_init [a, b, real_of_int n] default_kwargs
         | Grid cs k \<Rightarrow> GridCoord_init [a, b, real_of_int n] default_kwargs
         | Uniform u \<Rightarrow> UniformGridCoord_init (Some t) None None None None default_kwargs))"

definition Coord_intersect_bounds ::
  "Coord \<Rightarrow> real list \<Rightarrow> int \<Rightarrow> bool \<Rightarrow> (error + ibresult) \<times> real list" where
  "Coord_intersect_bounds c bounds pad ind =
     (case c of
        Single v k \<Rightarrow> (Inr (if ind then Indices 0 1 else Object c), bounds)
      | Grid cs k \<Rightarrow> (GridCoord_intersect_bounds cs k bounds pad ind, bounds)
      | Uniform u \<Rightarrow> UniformGridCoord_intersect_bounds u bounds pad ind)"

text \<open>\<open>Coord.intersect_check\<close>: \<open>None\<close> when it falls through without a \<open>return\<close>.\<close>

definition Coord_intersect_check :: "Coord \<Rightarrow> Coord \<Rightarrow> bool \<Rightarrow> error + ibresult option" where
  "Coord_intersect_check self other ind =
     (if Coord_units self \<noteq> Coord_units other then Inl NotImplementedError
      else case Coord_bounds self of
        Inl e \<Rightarrow> Inl e
      | Inr (slo, shi) \<Rightarrow>
       (case Coord_bounds other of
          Inl e \<Rightarrow> Inl e
        | Inr (olo, ohi) \<Rightarrow>
           if slo = olo \<and> shi = ohi then
             (if ind then
                (case Coord_size self of
                   Inl e \<Rightarrow> Inl e
                 | Inr sz \<Rightarrow> Inr (Some (Indices 0 sz)))
              else Inr (Some (Object self)))
           else if max slo olo > min shi ohi then
             (if ind then Inr (Some (Indices 0 0))
              else case Coord_class_init self (slo, shi, 0) of
                     Inl e \<Rightarrow> Inl e
                   | Inr c \<Rightarrow> Inr (Some (Object c)))
           else Inr None))"

text \<open>\<open>Coord.intersect\<close>: every value \<open>intersect_check\<close> can return is truthy (a
  two-element list or an object), so a returned value is passed on.\<close>

definition Coord_intersect :: "Coord \<Rightarrow> Coord \<Rightarrow> int \<Rightarrow> bool \<Rightarrow> error + ibresult" where
  "Coord_intersect self other pad ind =
     (case Coord_intersect_check self other ind of
        Inl e \<Rightarrow> Inl e
      | Inr (Some r) \<Rightarrow> Inr r
      | Inr None \<Rightarrow>
         (case Coord_bounds other of
            Inl e \<Rightarrow> Inl e
          | Inr (olo, ohi) \<Rightarrow> fst (Coord_intersect_bounds self [olo, ohi] pad ind)))"

section \<open>The multi-dimensional class Coordinate\<close>

text \<open>
  \<open>Coordinate\<close> of podpac/core/coordinate.py; \<open>_coords_validate\<close>, \<open>_validate_dim\<close>,
  \<open>get_dims_map\<close>, \<open>unstack_dict\<close>, \<open>stack_dict\<close> and \<open>get_shape\<close> read the same in
  podpac/core/coordinate/coordinate.py, up to the exception classes.  An \<open>OrderedDict\<close>
  is an association list with distinct keys in insertion order; assigning to a key is
  \<open>AList.update\<close>, which replaces the value of a key in place and appends a new key.

  The values of the \<open>coords\<close> dictionary given to the constructor are coordinate objects
  (\<open>One\<close>) or tuples of coordinate objects (\<open>Many\<close>, for a stacked key such as
  \<open>lat_lon\<close>); raw numbers and arrays, which \<open>make_coord\<close> would convert first, are not
  modelled.
\<close>

datatype cval = One Coord | Many "Coord list"

record Coordinate_kwargs =
  coord_ref_sys :: string
  coordinate_segment_position :: real
  coordinate_ctype :: ctype

record Coordinate =
  u_coords :: "(string \<times> Coord) list"
  dims_map :: "(string \<times> string) list"
  coordinate_kwargs :: Coordinate_kwargs

definition valid_dims :: "string list" where
  "valid_dims = [''time'', ''lat'', ''lon'', ''alt'']"

text \<open>\<open>s.split(c)\<close> for a one-character separator.\<close>

fun split_on :: "char \<Rightarrow> string \<Rightarrow> string list" where
  "split_on c [] = [[]]"
| "split_on c (x # xs) =
     (if x = c then [] # split_on c xs
      else (case split_on c xs of [] \<Rightarrow> [[x]] | w # ws \<Rightarrow> (x # w) # ws))"

definition split_us :: "string \<Rightarrow> string list" where
  "split_us s = split_on CHR ''_'' s"

fun get_dims_map_loop ::
  "(string \<times> 'v) list \<Rightarrow> (string \<times> string) list \<Rightarrow> (string \<times> string) list" where
  "get_dims_map_loop [] stacked_coords = stacked_coords"
| "get_dims_map_loop ((c, v) # rest) stacked_coords =
     get_dims_map_loop rest
       (if CHR ''_'' \<in> set c
        then fold (\<lambda>cc acc. AList.update cc c acc) (split_us c) stacked_coords
        else AList.update c c stacked_coords)"

definition get_dims_map :: "(string \<times> 'v) list \<Rightarrow> (string \<times> string) list" where
  "get_dims_map coords = get_dims_map_loop coords []"

text \<open>\<open>val[i]\<close>: a coordinate object cannot be indexed, a tuple can within its length.\<close>

definition getitem :: "cval \<Rightarrow> nat \<Rightarrow> error + cval" where
  "getitem val i =
     (case val of
        One c \<Rightarrow> Inl TypeError
      | Many cs \<Rightarrow> if i < length cs then Inr (One (cs ! i)) else Inl IndexError)"

text \<open>\<open>unstack_dict\<close> (always called with \<open>check_dim_repeat=False\<close>): the inner loop
  over \<open>enumerate(keys)\<close>, then the loop over \<open>coords.items()\<close>.  The test \<open>key not in
  self.dims_map\<close> reads the \<open>dims_map\<close> of the object.\<close>

fun unstack_keys ::
  "string list \<Rightarrow> nat \<Rightarrow> cval \<Rightarrow> (string \<times> cval) list \<Rightarrow> error + (string \<times> cval) list" where
  "unstack_keys [] i val new_crds = Inr new_crds"
| "unstack_keys (k # keys) i val new_crds =
     (case getitem val i of
        Inl e \<Rightarrow> Inl e
      | Inr x \<Rightarrow> unstack_keys keys (Suc i) val (AList.update k x new_crds))"

fun unstack_dict_loop ::
  "(string \<times> string) list \<Rightarrow> (string \<times> cval) list \<Rightarrow> (string \<times> cval) list
     \<Rightarrow> error + (string \<times> cval) list" where
  "unstack_dict_loop dm [] new_crds = Inr new_crds"
| "unstack_dict_loop dm ((key, val) # rest) new_crds =
     (if key \<notin> set (map fst dm) then
        (case unstack_keys (split_us key) 0 val new_crds of
           Inl e \<Rightarrow> Inl e
         | Inr n \<Rightarrow> unstack_dict_loop dm rest n)
      else unstack_dict_loop dm rest (AList.update key val new_crds))"

definition unstack_dict ::
  "(string \<times> string) list \<Rightarrow> (string \<times> cval) list \<Rightarrow> error + (string \<times> cval) list" where
  "unstack_dict dm coords = unstack_dict_loop dm coords []"

text \<open>The constructor's loop over \<open>_coords.items()\<close>: a value that is not a coordinate
  object goes to \<open>make_coord\<close>, which raises on a tuple of coordinate objects (as a
  \<open>SingleCoord\<close> when the tuple has one entry, as a \<open>GridCoord\<close> otherwise).\<close>

definition make_coord :: "cval \<Rightarrow> error + Coord" where
  "make_coord val =
     (case val of
        One c \<Rightarrow> Inr c
      | Many cs \<Rightarrow>
          if length cs = 1 then Inl CoordsTypeNotRecognized
          else if cs = [] then Inl IndexError
          else Inl GridCoordSameType)"

fun make_coords :: "(string \<times> cval) list \<Rightarrow> error + (string \<times> Coord) list" where
  "make_coords [] = Inr []"
| "make_coords ((key, val) # rest) =
     (case make_coord val of
        Inl e \<Rightarrow> Inl e
      | Inr c \<Rightarrow>
         (case make_coords rest of
            Inl e \<Rightarrow> Inl e
          | Inr cs \<Rightarrow> Inr ((key, c) # cs)))"

text \<open>\<open>_validate_dim\<close>; it returns \<open>seen_dims\<close> as the call leaves it.\<close>

definition validate_dim :: "string \<Rightarrow> string list \<Rightarrow> error + string list" where
  "validate_dim dimname seen_dims =
     (if dimname \<notin> set valid_dims then Inl (InvalidDimension dimname)
      else if dimname \<in> set seen_dims then Inl (RepeatedDimension dimname)
      else Inr (seen_dims @ [dimname]))"

text \<open>\<open>_coords_validate\<close>: the loop over the keys of the proposed \<open>_coords\<close>, with the
  local list \<open>seen_dims\<close> and the local dictionary \<open>stack_dims\<close> as state.
  (\<open>_validate_val\<close> only inspects xarray values, which are not modelled.)\<close>

fun coords_validate_loop ::
  "(string \<times> string) list \<Rightarrow> (string \<times> Coord) list \<Rightarrow> string list \<Rightarrow> (string \<rightharpoonup> int)
     \<Rightarrow> error + string list \<times> (string \<rightharpoonup> int)" where
  "coords_validate_loop dm [] seen_dims stack_dims = Inr (seen_dims, stack_dims)"
| "coords_validate_loop dm ((key, val) # rest) seen_dims stack_dims =
     (case validate_dim key seen_dims of
        Inl e \<Rightarrow> Inl e
      | Inr seen1 \<Rightarrow>
          if key \<notin> set (map snd dm) then
            (case map_of dm key of
               None \<Rightarrow> Inl KeyError
             | Some d \<Rightarrow>
                (case stack_dims d of
                   None \<Rightarrow>
                     (case Coord_size val of
                        Inl e \<Rightarrow> Inl e
                      | Inr n \<Rightarrow> coords_validate_loop dm rest seen1 (stack_dims(d \<mapsto> n)))
                 | Some m \<Rightarrow>
                     (case Coord_size val of
                        Inl e \<Rightarrow> Inl e
                      | Inr n \<Rightarrow>
                          if n \<noteq> m then Inl (StackedSizeMismatch key d)
                          else coords_validate_loop dm rest seen1 stack_dims)))
          else coords_validate_loop dm rest seen1 stack_dims)"

definition coords_validate ::
  "(string \<times> string) list \<Rightarrow> (string \<times> Coord) list \<Rightarrow> error + (string \<times> Coord) list" where
  "coords_validate dm proposal =
     (case coords_validate_loop dm proposal [] Map.empty of
        Inl e \<Rightarrow> Inl e
      | Inr st \<Rightarrow> Inr proposal)"

text \<open>\<open>Coordinate.__init__\<close> for a given \<open>coords\<close> dictionary.\<close>

definition Coordinate_init ::
  "(string \<times> cval) list \<Rightarrow> Coordinate_kwargs \<Rightarrow> error + Coordinate" where
  "Coordinate_init coords kws =
     (let dm = get_dims_map coords in
      case unstack_dict dm coords of
        Inl e \<Rightarrow> Inl e
      | Inr u \<Rightarrow>
         (case make_coords u of
            Inl e \<Rightarrow> Inl e
          | Inr uc \<Rightarrow>
             (case coords_validate dm uc of
                Inl e \<Rightarrow> Inl e
              | Inr validated \<Rightarrow>
                  Inr \<lparr>u_coords = validated, dims_map = dm, coordinate_kwargs = kws\<rparr>)))"

text \<open>\<open>stack_dict(coords, dims_map)\<close>.\<close>

fun stack_dict_loop ::
  "(string \<times> string) list \<Rightarrow> (string \<times> Coord) list \<Rightarrow> (string \<times> cval) list
     \<Rightarrow> error + (string \<times> cval) list" where
  "stack_dict_loop [] coords stacked_coords = Inr stacked_coords"
| "stack_dict_loop ((key, val) # rest) coords stacked_coords =
     (case map_of stacked_coords val of
        Some temp \<Rightarrow>
          (case map_of coords key of
             None \<Rightarrow> Inl KeyError
           | Some c \<Rightarrow>
               stack_dict_loop rest coords
                 (AList.update val
                    (Many ((case temp of One t \<Rightarrow> [t] | Many ts \<Rightarrow> ts) @ [c]))
                    stacked_coords))
      | None \<Rightarrow>
          (case map_of coords key of
             None \<Rightarrow> Inl KeyError
           | Some c \<Rightarrow> stack_dict_loop rest coords (AList.update val (One c) stacked_coords)))"

definition stack_dict ::
  "(string \<times> Coord) list \<Rightarrow> (string \<times> string) list \<Rightarrow> error + (string \<times> cval) list" where
  "stack_dict coords dm = stack_dict_loop dm coords []"

text \<open>The \<open>pad\<close> argument of \<open>intersect\<close>: a number, a list or tuple indexed by position,
  or a dictionary indexed by dimension.\<close>

datatype pad_arg = PadNumber int | PadList "int list" | PadDict "(string \<times> int) list"

definition spad_of :: "pad_arg \<Rightarrow> nat \<Rightarrow> string \<Rightarrow> error + int" where
  "spad_of pad i d =
     (case pad of
        PadNumber n \<Rightarrow> Inr n
      | PadList ns \<Rightarrow> if i < length ns then Inr (ns ! i) else Inl IndexError
      | PadDict m \<Rightarrow> (case map_of m d of None \<Rightarrow> Inl KeyError | Some n \<Rightarrow> Inr n))"

text \<open>\<open>Coordinate.intersect\<close>: the loop over \<open>enumerate(self._coords)\<close> that fills
  \<open>new_crds\<close>, then \<open>stack_dict\<close> and the constructor.  The 1-d \<open>intersect\<close> is called
  with \<open>ind=False\<close> and so returns an object; the bounds cached on \<open>other\<close>'s coordinate
  objects, which that call may overwrite, are recomputed from the fields here.\<close>

fun intersect_loop ::
  "(string \<times> Coord) list \<Rightarrow> nat \<Rightarrow> (string \<times> Coord) list \<Rightarrow> pad_arg
     \<Rightarrow> (string \<times> Coord) list \<Rightarrow> error + (string \<times> Coord) list" where
  "intersect_loop [] i other pad new_crds = Inr new_crds"
| "intersect_loop ((d, c) # rest) i other pad new_crds =
     (case spad_of pad i d of
        Inl e \<Rightarrow> Inl e
      | Inr spad \<Rightarrow>
         (case map_of other d of
            None \<Rightarrow> intersect_loop rest (Suc i) other pad (AList.update d c new_crds)
          | Some oc \<Rightarrow>
             (case Coord_intersect c oc spad False of
                Inl e \<Rightarrow> Inl e
              | Inr (Indices a b) \<Rightarrow> Inl TypeError
              | Inr (Object c1) \<Rightarrow>
                  intersect_loop rest (Suc i) other pad (AList.update d c1 new_crds))))"

definition Coordinate_intersect ::
  "Coordinate \<Rightarrow> Coordinate \<Rightarrow> pad_arg \<Rightarrow> error + Coordinate" where
  "Coordinate_intersect self other pad =
     (case intersect_loop (u_coords self) 0 (u_coords other) pad [] of
        Inl e \<Rightarrow> Inl e
      | Inr new_crds \<Rightarrow>
         (case stack_dict new_crds (dims_map self) of
            Inl e \<Rightarrow> Inl e
          | Inr stacked_coords \<Rightarrow> Coordinate_init stacked_coords (coordinate_kwargs self)))"

text \<open>\<open>get_shape(other_coords)\<close>: the size is appended before the test on \<open>seen_dims\<close>
  and popped again for a stacked duplicate.\<close>

fun get_shape_loop ::
  "(string \<times> Coord) list \<Rightarrow> Coordinate \<Rightarrow> int list \<Rightarrow> string list \<Rightarrow> error + int list" where
  "get_shape_loop [] other shape seen_dims = Inr shape"
| "get_shape_loop ((k, c) # rest) other shape seen_dims =
     (case map_of (u_coords other) k of
        Some oc \<Rightarrow>
          (case Coord_size oc of
             Inl e \<Rightarrow> Inl e
           | Inr n \<Rightarrow>
              (case map_of (dims_map other) k of
                 None \<Rightarrow> Inl KeyError
               | Some d \<Rightarrow>
                   if d \<in> set seen_dims then get_shape_loop rest other shape seen_dims
                   else get_shape_loop rest other (shape @ [n]) (seen_dims @ [d])))
      | None \<Rightarrow>
          (case Coord_size c of
             Inl e \<Rightarrow> Inl e
           | Inr n \<Rightarrow> get_shape_loop rest other (shape @ [n]) seen_dims))"

definition get_shape :: "Coordinate \<Rightarrow> Coordinate \<Rightarrow> error + int list" where
  "get_shape self other_coords = get_shape_loop (u_coords self) other_coords [] []"

definition Coordinate_shape :: "Coordinate \<Rightarrow> error + int list" where
  "Coordinate_shape self = get_shape self self"

text \<open>The property \<open>dims\<close>: the values of \<open>dims_map\<close>, each once, in order.\<close>

fun dims_loop :: "string list \<Rightarrow> string list \<Rightarrow> string list" where
  "dims_loop [] dims = dims"
| "dims_loop (v # rest) dims = dims_loop rest (if v \<notin> set dims then dims @ [v] else dims)"

definition Coordinate_dims :: "Coordinate \<Rightarrow> string list" where
  "Coordinate_dims self = dims_loop (map snd (dims_map self)) []"

text \<open>The defaults of the constructor's keyword arguments.\<close>

definition Coordinate_default_kwargs :: Coordinate_kwargs where
  "Coordinate_default_kwargs =
     \<lparr>coord_ref_sys = ''WGS84'', coordinate_segment_position = 1 / 2, coordinate_ctype = Segment\<rparr>"

subsection \<open>Notions used in the statements and proofs\<close>

text \<open>The dimension names a key of \<open>coords\<close> stands for, as \<open>get_dims_map\<close> reads it:
  the parts between underscores for a compound key, the key itself otherwise.  The
  dimension names of a whole dictionary are \<open>flat_keys\<close>.\<close>

definition comps :: "string \<Rightarrow> string list" where
  "comps c = (if CHR ''_'' \<in> set c then split_us c else [c])"

definition flat_keys :: "(string \<times> 'v) list \<Rightarrow> string list" where
  "flat_keys coords = concat (map (\<lambda>p. comps (fst p)) coords)"

text \<open>What \<open>get_dims_map\<close> always returns: distinct keys, each a component of the name it
  is mapped to.\<close>

definition dims_map_ok :: "(string \<times> string) list \<Rightarrow> bool" where
  "dims_map_ok dm = (distinct (map fst dm) \<and> list_all (\<lambda>p. fst p \<in> set (comps (snd p))) dm)"

text \<open>The keys of an ordered dictionary after assigning to the keys \<open>ks\<close> in turn.\<close>

fun okeys :: "'k list \<Rightarrow> 'k list \<Rightarrow> 'k list" where
  "okeys acc [] = acc"
| "okeys acc (k # ks) = okeys (if k \<in> set acc then acc else acc @ [k]) ks"

text \<open>When no dimension name is repeated, \<open>get_dims_map\<close> is \<open>dm_flat\<close>, and \<open>stack_dict\<close>
  gives a name with one component the coordinate itself and a compound name the list
  of its components' coordinates (\<open>grp\<close>; \<open>ext\<close> is the list while it is being built).\<close>

definition dm_flat :: "(string \<times> 'v) list \<Rightarrow> (string \<times> string) list" where
  "dm_flat coords = concat (map (\<lambda>p. map (\<lambda>k. (k, fst p)) (comps (fst p))) coords)"

definition look :: "(string \<times> Coord) list \<Rightarrow> string \<Rightarrow> Coord" where
  "look new k = the (map_of new k)"

definition grp :: "(string \<times> Coord) list \<Rightarrow> string list \<Rightarrow> cval" where
  "grp new ks = (case ks of [k] \<Rightarrow> One (look new k) | _ \<Rightarrow> Many (map (look new) ks))"

fun ext :: "(string \<times> Coord) list \<Rightarrow> cval \<Rightarrow> string list \<Rightarrow> cval" where
  "ext new V [] = V"
| "ext new V (k # ks) =
     Many ((case V of One t \<Rightarrow> [t] | Many ts \<Rightarrow> ts) @ map (look new) (k # ks))"

section \<open>Properties of the one-dimensional classes\<close>

lemma SingleCoord_delta_pos: "0 < SingleCoord_delta"
  by (simp add: SingleCoord_delta_def)

lemma SingleCoord_delta_less_one: "SingleCoord_delta < 1"
  by (simp add: SingleCoord_delta_def)

lemma progression_Min:
  "Min ((\<lambda>i. a + real i * d) ` {0..n}) = min a (a + real n * d)"
proof (rule Min_eqI)
  show "finite ((\<lambda>i. a + real i * d) ` {0..n})" by simp
next
  fix y assume "y \<in> (\<lambda>i. a + real i * d) ` {0..n}"
  then obtain i where i: "i \<le> n" and y: "y = a + real i * d" by auto
  show "min a (a + real n * d) \<le> y"
  proof (cases "0 \<le> d")
    case True
    then have "0 \<le> real i * d" by simp
    then show ?thesis using y by simp
  next
    case False
    then have "real n * d \<le> real i * d" using i by (simp add: mult_right_mono_neg)
    then show ?thesis using y by simp
  qed
next
  have "a = a + real 0 * d" "(0::nat) \<in> {0..n}" by simp_all
  then have "a \<in> (\<lambda>i. a + real i * d) ` {0..n}" by (rule image_eqI)
  moreover have "n \<in> {0..n}" by simp
  then have "a + real n * d \<in> (\<lambda>i. a + real i * d) ` {0..n}" by (rule imageI)
  ultimately show "min a (a + real n * d) \<in> (\<lambda>i. a + real i * d) ` {0..n}"
    by (simp add: min_def)
qed

lemma progression_Max:
  "Max ((\<lambda>i. a + real i * d) ` {0..n}) = max a (a + real n * d)"
proof (rule Max_eqI)
  show "finite ((\<lambda>i. a + real i * d) ` {0..n})" by simp
next
  fix y assume "y \<in> (\<lambda>i. a + real i * d) ` {0..n}"
  then obtain i where i: "i \<le> n" and y: "y = a + real i * d" by auto
  show "y \<le> max a (a + real n * d)"
  proof (cases "0 \<le> d")
    case True
    then have "real i * d \<le> real n * d" using i by (simp add: mult_right_mono)
    then show ?thesis using y by simp
  next
    case False
    then have "real i * d \<le> 0" by (simp add: mult_nonneg_nonpos)
    then show ?thesis using y by simp
  qed
next
  have "a = a + real 0 * d" "(0::nat) \<in> {0..n}" by simp_all
  then have "a \<in> (\<lambda>i. a + real i * d) ` {0..n}" by (rule image_eqI)
  moreover have "n \<in> {0..n}" by simp
  then have "a + real n * d \<in> (\<lambda>i. a + real i * d) ` {0..n}" by (rule imageI)
  ultimately show "max a (a + real n * d) \<in> (\<lambda>i. a + real i * d) ` {0..n}"
    by (simp add: max_def)
qed

lemma progression_set:
  "set (map (\<lambda>i. a + real i * d) [0..<Suc n]) = (\<lambda>i. a + real i * d) ` {0..n}"
  by (simp add: atLeastLessThanSuc_atLeastAtMost del: upt_Suc)

lemma UniformGridCoord_bounds_min_max:
  "UniformGridCoord_bounds u = (min (start u) (stop u), max (start u) (stop u))"
  by (simp add: UniformGridCoord_bounds_def UniformGridCoord_is_max_to_min_def)

lemma UniformGridCoord_coordinates_step:
  assumes "step u = Some s" "s \<noteq> 0" "stop u - start u = real n * s"
  shows "UniformGridCoord_coordinates u = Inr (map (\<lambda>i. start u + real i * s) [0..<Suc n])"
proof -
  have "(stop u + s - start u) / s = real n + 1"
    using assms(2,3) by (simp add: field_simps)
  then have "nat \<lceil>(stop u + s - start u) / s\<rceil> = Suc n"
    by (simp add: ceiling_add_one del: of_nat_Suc) 
  then show ?thesis
    using assms(1,2)
    by (simp add: UniformGridCoord_coordinates_def UniformGridCoord_delta_def arange_def del: upt_Suc)
qed

lemma UniformGridCoord_coordinates_num:
  assumes "step u = None" "num u = Some m" "2 \<le> m"
  shows "UniformGridCoord_coordinates u =
           Inr (map (\<lambda>i. start u + real i * ((stop u - start u) / real (nat (m - 1))))
                  [0..<Suc (nat (m - 1))])"
proof -
  have "nat m = Suc (nat (m - 1))" using assms(3) by simp
  moreover have "real_of_int (m - 1) = real (nat (m - 1))" using assms(3) by simp
  ultimately show ?thesis
    using assms
    by (simp add: UniformGridCoord_coordinates_def UniformGridCoord_size_def linspace_def
          del: upt_Suc of_int_diff)
qed


subsection \<open>Size and values of a uniform coordinate\<close>

text \<open>
  Claim C1.  A uniform coordinate built from start 0, stop 50 and step 10 should have the
  values 0, 10, ..., 50, the size 6 and not be descending.  In the source
  \<open>UniformGridCoord(start=0, stop=50, step=10)\<close> is constructed, its \<open>coordinates\<close> are the
  six values and \<open>is_max_to_min\<close> is false, but \<open>size\<close> evaluates
  \<open>max(0, int(ceil((start - stop) / step)))\<close>, which is 0 here: the difference is taken
  the wrong way round, and the end point that \<open>coordinates\<close> includes is not counted.
\<close>

theorem UniformGridCoord_0_50_10:
  "UniformGridCoord_init None (Some 0) (Some 50) None (Some 10) default_kwargs =
     Inr (Uniform \<lparr>start = 0, stop = 50, num = None, step = Some 10, epsg = None,
                    kw = default_kwargs\<rparr>)
   \<and> UniformGridCoord_coordinates
        \<lparr>start = 0, stop = 50, num = None, step = Some 10, epsg = None, kw = default_kwargs\<rparr>
       = Inr [0, 10, 20, 30, 40, 50]
   \<and> UniformGridCoord_is_max_to_min
        \<lparr>start = 0, stop = 50, num = None, step = Some 10, epsg = None, kw = default_kwargs\<rparr>
       = False
   \<and> UniformGridCoord_size
        \<lparr>start = 0, stop = 50, num = None, step = Some 10, epsg = None, kw = default_kwargs\<rparr>
       = Inr 0"
  by (simp add: UniformGridCoord_init_def UniformGridCoord_coordinates_def
      UniformGridCoord_delta_def UniformGridCoord_is_max_to_min_def UniformGridCoord_size_def
      arange_def upt_rec)

subsection \<open>Selection by bounds on a uniform coordinate\<close>





subsection \<open>Indices against objects\<close>

text \<open>
  Claim C3.  The indices returned with \<open>ind=True\<close> should select, from the coordinate's
  values, exactly the values of the object returned with \<open>ind=False\<close>.  For the uniform
  coordinate with start 20, stop 70 and step 10 and the bounds [45, 100] the index
  variant clamps both indices with \<open>size\<close>, which is 0 for this coordinate, and returns
  \<open>[0, 0]\<close>, an empty slice of the values 20, ..., 70; the object variant returns the
  coordinate with the values 30, ..., 70.
\<close>

theorem UniformGridCoord_intersect_bounds_indices_vs_object:
  "fst (UniformGridCoord_intersect_bounds
          \<lparr>start = 20, stop = 70, num = None, step = Some 10, epsg = None, kw = default_kwargs\<rparr>
          [45, 100] 1 True)
     = Inr (Indices 0 0)
   \<and> UniformGridCoord_coordinates
        \<lparr>start = 20, stop = 70, num = None, step = Some 10, epsg = None, kw = default_kwargs\<rparr>
     = Inr [20, 30, 40, 50, 60, 70]
   \<and> py_slice [20, 30, 40, 50, 60, 70 :: real] 0 0 = []
   \<and> fst (UniformGridCoord_intersect_bounds
          \<lparr>start = 20, stop = 70, num = None, step = Some 10, epsg = None, kw = default_kwargs\<rparr>
          [45, 100] 1 False)
     = Inr (Object (Uniform \<lparr>start = 30, stop = 70, num = None, step = Some 10, epsg = None,
                              kw = default_kwargs\<rparr>))
   \<and> Coord_coordinates
        (Uniform \<lparr>start = 30, stop = 70, num = None, step = Some 10, epsg = None,
                   kw = default_kwargs\<rparr>)
     = Inr [30, 40, 50, 60, 70]"
  by (simp add: UniformGridCoord_intersect_bounds_def UniformGridCoord_bounds_def
      UniformGridCoord_is_max_to_min_def UniformGridCoord_delta_def UniformGridCoord_init_def
      UniformGridCoord_size_def UniformGridCoord_coordinates_def Coord_coordinates_def
      arange_def py_slice_def upt_rec)

subsection \<open>Disjoint bounds\<close>

text \<open>
  Claim C4.  Intersecting with disjoint bounds should return an empty coordinate object
  without raising.  \<open>Coord.intersect_check\<close> builds that object as
  \<open>self.__class__(coords=(self.bounds[0], self.bounds[1], 0))\<close>.  For a
  \<open>UniformGridCoord\<close> the constructor leaves \<open>num\<close> and \<open>step\<close> unset and raises; for a
  \<open>GridCoord\<close> the three entries are taken as three coordinate values, so the result has
  size 3; for a \<open>SingleCoord\<close> the three entries are rejected.  Only the index variant
  returns the empty range \<open>[0, 0]\<close>.
\<close>

theorem Coord_intersect_disjoint:
  "Coord_intersect
     (Uniform \<lparr>start = 0, stop = 10, num = None, step = Some 1, epsg = None,
                kw = default_kwargs\<rparr>)
     (Uniform \<lparr>start = 20, stop = 30, num = None, step = Some 1, epsg = None,
                kw = default_kwargs\<rparr>) 1 False
     = Inl RequiresNumOrStep
   \<and> Coord_intersect (Grid [0, 1, 2] default_kwargs) (Grid [10, 20] default_kwargs) 1 False
     = Inr (Object (Grid [0, 2, 0] default_kwargs))
   \<and> Coord_size (Grid [0, 2, 0] default_kwargs) = Inr 3
   \<and> fst (Coord_intersect_bounds (Grid [0, 1, 2] default_kwargs) [10, 20] 1 False)
     = Inr (Object (Grid [0, 2, 0] default_kwargs))
   \<and> Coord_intersect (Single 5 default_kwargs) (Single 7 default_kwargs) 1 False
     = Inl SingleMultipleValues
   \<and> Coord_intersect (Grid [0, 1, 2] default_kwargs) (Grid [10, 20] default_kwargs) 1 True
     = Inr (Indices 0 0)"
  using SingleCoord_delta_pos SingleCoord_delta_less_one
  by (simp add: Coord_intersect_def Coord_intersect_check_def Coord_units_def Coord_bounds_def
      Coord_size_def Coord_class_init_def Coord_intersect_bounds_def
      UniformGridCoord_bounds_def UniformGridCoord_is_max_to_min_def UniformGridCoord_init_def
      GridCoord_bounds_def GridCoord_init_def GridCoord_intersect_bounds_def GridCoord_delta_def
      GridCoord_is_max_to_min_def SingleCoord_bounds_def SingleCoord_init_def upt_rec)

subsection \<open>Bounds and ordering\<close>

text \<open>
  Claim C5, as stated: the bounds of every 1-d coordinate are the minimum and the maximum
  of its values.  A \<open>SingleCoord\<close> with the value 5 has the one coordinate value 5, and
  its bounds are \<open>5 - delta\<close> and \<open>5 + delta\<close> for the fixed positive
  \<open>delta = sqrt(float32 eps)\<close>.
\<close>

theorem SingleCoord_bounds_counterexample:
  "Coord_coordinates (Single 5 default_kwargs) = Inr [5]
   \<and> Coord_bounds (Single 5 default_kwargs) \<noteq> Inr (Min (set [5]), Max (set [5]))"
  using SingleCoord_delta_pos
  by (simp add: Coord_coordinates_def Coord_bounds_def SingleCoord_bounds_def)

text \<open>
  Claim C5, amended.  The bounds of a single-value coordinate \<open>v\<close> are
  \<open>(v - delta, v + delta)\<close> with the fixed \<open>delta > 0\<close>, which strictly enclose the value.
  The bounds of an array-backed coordinate are the minimum and the maximum of its values.
  The bounds of a uniform coordinate are the ascending pair of \<open>start\<close> and \<open>stop\<close>; they
  are the minimum and the maximum of its values when it is defined by a non-zero step and
  \<open>stop - start\<close> is a whole multiple of the step, and when it is defined by a number of
  points that is at least 2.  A uniform coordinate is descending exactly when
  \<open>start > stop\<close>.
\<close>

theorem Coord_bounds_by_class:
  "Coord_bounds (Single v k) = Inr (v - SingleCoord_delta, v + SingleCoord_delta)
   \<and> v - SingleCoord_delta < v \<and> v < v + SingleCoord_delta
   \<and> (cs \<noteq> [] \<longrightarrow> Coord_bounds (Grid cs k) = Inr (Min (set cs), Max (set cs)))
   \<and> Coord_bounds (Uniform u) = Inr (min (start u) (stop u), max (start u) (stop u))
   \<and> (step u = Some s \<and> s \<noteq> 0 \<and> stop u - start u = real n * s \<longrightarrow>
        (\<exists>xs. Coord_coordinates (Uniform u) = Inr xs \<and> xs \<noteq> [] \<and>
              Coord_bounds (Uniform u) = Inr (Min (set xs), Max (set xs))))
   \<and> (step w = None \<and> num w = Some m \<and> 2 \<le> m \<longrightarrow>
        (\<exists>xs. Coord_coordinates (Uniform w) = Inr xs \<and> xs \<noteq> [] \<and>
              Coord_bounds (Uniform w) = Inr (Min (set xs), Max (set xs))))
   \<and> Coord_is_max_to_min (Uniform u) = Inr (start u > stop u)"
proof -
  have single: "Coord_bounds (Single v k) = Inr (v - SingleCoord_delta, v + SingleCoord_delta)"
    by (simp add: Coord_bounds_def SingleCoord_bounds_def)
  have encl: "v - SingleCoord_delta < v \<and> v < v + SingleCoord_delta"
    using SingleCoord_delta_pos by simp
  have grid: "cs \<noteq> [] \<longrightarrow> Coord_bounds (Grid cs k) = Inr (Min (set cs), Max (set cs))"
    by (simp add: Coord_bounds_def GridCoord_bounds_def)
  have ub: "Coord_bounds (Uniform u) = Inr (min (start u) (stop u), max (start u) (stop u))" for u
    by (simp add: Coord_bounds_def UniformGridCoord_bounds_min_max)
  have stepped: "\<exists>xs. Coord_coordinates (Uniform u) = Inr xs \<and> xs \<noteq> [] \<and>
              Coord_bounds (Uniform u) = Inr (Min (set xs), Max (set xs))"
    if h: "step u = Some s \<and> s \<noteq> 0 \<and> stop u - start u = real n * s"
  proof -
    let ?xs = "map (\<lambda>i. start u + real i * s) [0..<Suc n]"
    have c: "Coord_coordinates (Uniform u) = Inr ?xs"
      using h UniformGridCoord_coordinates_step[of u s n] by (simp add: Coord_coordinates_def)
    have e: "start u + real n * s = stop u" using h by simp
    have "Min (set ?xs) = min (start u) (stop u)" "Max (set ?xs) = max (start u) (stop u)"
      unfolding progression_set by (simp_all add: progression_Min progression_Max e)
    then have "Coord_bounds (Uniform u) = Inr (Min (set ?xs), Max (set ?xs))"
      using ub[of u] by simp
    moreover have "?xs \<noteq> []" by simp
    ultimately show ?thesis using c by blast
  qed
  have counted: "\<exists>xs. Coord_coordinates (Uniform w) = Inr xs \<and> xs \<noteq> [] \<and>
              Coord_bounds (Uniform w) = Inr (Min (set xs), Max (set xs))"
    if h: "step w = None \<and> num w = Some m \<and> 2 \<le> m"
  proof -
    define q where "q = nat (m - 1)"
    define d where "d = (stop w - start w) / real q"
    let ?xs = "map (\<lambda>i. start w + real i * d) [0..<Suc q]"
    have q: "0 < q" using h by (simp add: q_def)
    have c: "Coord_coordinates (Uniform w) = Inr ?xs"
      using h UniformGridCoord_coordinates_num[of w m]
      by (simp add: Coord_coordinates_def q_def d_def)
    have e: "start w + real q * d = stop w" using q by (simp add: d_def)
    have "Min (set ?xs) = min (start w) (stop w)" "Max (set ?xs) = max (start w) (stop w)"
      unfolding progression_set by (simp_all add: progression_Min progression_Max e)
    then have "Coord_bounds (Uniform w) = Inr (Min (set ?xs), Max (set ?xs))"
      using ub[of w] by simp
    moreover have "?xs \<noteq> []" by simp
    ultimately show ?thesis using c by blast
  qed
  have desc: "Coord_is_max_to_min (Uniform u) = Inr (start u > stop u)"
    by (simp add: Coord_is_max_to_min_def UniformGridCoord_is_max_to_min_def)
  show ?thesis
    using single encl grid ub[of u] stepped counted desc by blast
qed


theorem Coord_bounds_by_class_witness:
  "[3, 1, 2 :: real] \<noteq> []
   \<and> Coord_bounds (Grid [3, 1, 2] default_kwargs) = Inr (Min (set [3, 1, 2]), Max (set [3, 1, 2]))
   \<and> (0::real) - 50 = real 5 * (- 10)
   \<and> (\<exists>xs. Coord_coordinates
              (Uniform \<lparr>start = 50, stop = 0, num = None, step = Some (- 10), epsg = None,
                         kw = default_kwargs\<rparr>) = Inr xs
           \<and> xs \<noteq> []
           \<and> Coord_bounds
              (Uniform \<lparr>start = 50, stop = 0, num = None, step = Some (- 10), epsg = None,
                         kw = default_kwargs\<rparr>) = Inr (Min (set xs), Max (set xs)))
   \<and> (2::int) \<le> 3
   \<and> (\<exists>xs. Coord_coordinates
              (Uniform \<lparr>start = 0, stop = 1, num = Some 3, step = None, epsg = None,
                         kw = default_kwargs\<rparr>) = Inr xs
           \<and> xs \<noteq> []
           \<and> Coord_bounds
              (Uniform \<lparr>start = 0, stop = 1, num = Some 3, step = None, epsg = None,
                         kw = default_kwargs\<rparr>) = Inr (Min (set xs), Max (set xs)))"
proof -
  let ?u = "\<lparr>start = 50, stop = 0, num = None, step = Some (- 10), epsg = None,
              kw = default_kwargs\<rparr>"
  let ?w = "\<lparr>start = 0, stop = 1, num = Some 3, step = None, epsg = None,
              kw = default_kwargs\<rparr>"
  note t = Coord_bounds_by_class
    [where v = 0 and cs = "[3, 1, 2]" and k = default_kwargs
       and u = ?u and s = "- 10" and n = 5 and w = ?w and m = 3]
  have h1: "[3, 1, 2 :: real] \<noteq> []" by simp
  have h2: "step ?u = Some (- 10) \<and> (- 10 :: real) \<noteq> 0 \<and> stop ?u - start ?u = real 5 * (- 10)"
    by simp
  have h3: "step ?w = None \<and> num ?w = Some 3 \<and> (2::int) \<le> 3" by simp
  have "(0::real) - 50 = real 5 * (- 10)" "(2::int) \<le> 3" by simp_all
  with t h1 h2 h3 show ?thesis by blast
qed

subsection \<open>The caller's bounds are overwritten\<close>

text \<open>
  Claim C10.  Bounds-based selection on a uniform coordinate assigns to the two entries
  of the bounds sequence it was given: whatever the call returns or raises afterwards,
  entry 0 has become the larger of the coordinate's lower bound and the old entry 0, and
  entry 1 the smaller of the coordinate's upper bound and the old entry 1; further
  entries are untouched.
\<close>

theorem UniformGridCoord_intersect_bounds_overwrites_bounds:
  "2 \<le> length bs \<Longrightarrow>
     snd (UniformGridCoord_intersect_bounds u bs pad ind) =
       bs[0 := max (fst (UniformGridCoord_bounds u)) (bs ! 0),
          1 := min (snd (UniformGridCoord_bounds u)) (bs ! 1)]"
  by (cases "UniformGridCoord_bounds u")
     (simp add: UniformGridCoord_intersect_bounds_def Let_def
       split: sum.splits prod.splits option.splits)

theorem UniformGridCoord_intersect_bounds_overwrites_bounds_witness:
  "2 \<le> length [45, 100 :: real]
   \<and> snd (UniformGridCoord_intersect_bounds
          \<lparr>start = 20, stop = 70, num = None, step = Some 10, epsg = None, kw = default_kwargs\<rparr>
          [45, 100] 1 False) = [45, 70]"
  using UniformGridCoord_intersect_bounds_overwrites_bounds
    [of "[45, 100]" "\<lparr>start = 20, stop = 70, num = None, step = Some 10, epsg = None,
                       kw = default_kwargs\<rparr>" 1 False]
  by (simp add: UniformGridCoord_bounds_def UniformGridCoord_is_max_to_min_def)

section \<open>Properties of the multi-dimensional class\<close>

subsection \<open>Splitting names\<close>

lemma split_on_nonempty: "split_on c s \<noteq> []"
  by (induction s) (auto split: list.splits)

lemma split_on_no_sep: "w \<in> set (split_on c s) \<Longrightarrow> c \<notin> set w"
proof (induction s arbitrary: w)
  case Nil
  then show ?case by simp
next
  case (Cons x xs)
  show ?case
  proof (cases "x = c")
    case True
    with Cons show ?thesis by auto
  next
    case False
    obtain w0 ws where sp: "split_on c xs = w0 # ws"
      using split_on_nonempty[of c xs] by (cases "split_on c xs") auto
    with Cons.prems False have "w = x # w0 \<or> w \<in> set ws" by auto
    then show ?thesis
    proof
      assume "w = x # w0"
      moreover have "c \<notin> set w0" using Cons.IH[of w0] sp by simp
      ultimately show ?thesis using False by auto
    next
      assume "w \<in> set ws"
      then show ?thesis using Cons.IH[of w] sp by simp
    qed
  qed
qed

lemma split_on_without_sep: "c \<notin> set s \<Longrightarrow> split_on c s = [s]"
  by (induction s) auto

subsection \<open>Assignments to an ordered dictionary\<close>

lemma set_update_cases:
  "p \<in> set (AList.update k v al) \<Longrightarrow> p = (k, v) \<or> p \<in> set al"
  by (induction al) (auto split: if_splits)

lemma distinct_fold_update:
  "distinct (map fst al) \<Longrightarrow> distinct (map fst (fold (\<lambda>k acc. AList.update k (f k) acc) ks al))"
  by (induction ks arbitrary: al) (simp_all add: distinct_update)

lemma set_fold_update_cases:
  "p \<in> set (fold (\<lambda>k acc. AList.update k v acc) ks al) \<Longrightarrow> (fst p \<in> set ks \<and> snd p = v) \<or> p \<in> set al"
proof (induction ks arbitrary: al)
  case Nil
  then show ?case by simp
next
  case (Cons k ks)
  from Cons.IH[of "AList.update k v al"] Cons.prems
  have "(fst p \<in> set ks \<and> snd p = v) \<or> p \<in> set (AList.update k v al)" by simp
  then show ?case using set_update_cases[of p k v al] by auto
qed

subsection \<open>The map from dimensions to stacked names\<close>

lemma get_dims_map_loop_ok:
  "dims_map_ok acc \<Longrightarrow> dims_map_ok (get_dims_map_loop coords acc)"
proof (induction coords arbitrary: acc)
  case Nil
  then show ?case by simp
next
  case (Cons p coords)
  obtain c v where p: "p = (c, v)" by (cases p)
  let ?acc = "if CHR ''_'' \<in> set c
        then fold (\<lambda>cc acc. AList.update cc c acc) (split_us c) acc
        else AList.update c c acc"
  have "dims_map_ok ?acc"
  proof (cases "CHR ''_'' \<in> set c")
    case True
    have "distinct (map fst (fold (\<lambda>cc acc. AList.update cc c acc) (split_us c) acc))"
      using Cons.prems distinct_fold_update[of acc "\<lambda>_. c"] by (simp add: dims_map_ok_def)
    moreover have "fst q \<in> set (comps (snd q))"
      if "q \<in> set (fold (\<lambda>cc acc. AList.update cc c acc) (split_us c) acc)" for q
      using set_fold_update_cases[OF that] Cons.prems True
      by (auto simp: dims_map_ok_def list_all_iff comps_def)
    ultimately show ?thesis using True by (simp add: dims_map_ok_def list_all_iff)
  next
    case False
    have "distinct (map fst (AList.update c c acc))"
      using Cons.prems by (simp add: dims_map_ok_def distinct_update)
    moreover have "fst q \<in> set (comps (snd q))" if "q \<in> set (AList.update c c acc)" for q
      using set_update_cases[OF that] Cons.prems False
      by (auto simp: dims_map_ok_def list_all_iff comps_def)
    ultimately show ?thesis using False by (simp add: dims_map_ok_def list_all_iff)
  qed
  then show ?case using Cons.IH[of ?acc] p by simp
qed

lemma get_dims_map_ok: "dims_map_ok (get_dims_map coords)"
  unfolding get_dims_map_def by (rule get_dims_map_loop_ok) (simp add: dims_map_ok_def)

subsection \<open>Validation\<close>

lemma valid_dims_no_underscore: "k \<in> set valid_dims \<Longrightarrow> CHR ''_'' \<notin> set k"
  by (auto simp: valid_dims_def)

lemma coords_validate_loop_valid:
  "coords_validate_loop dm xs seen stk = Inr st \<Longrightarrow> p \<in> set xs \<Longrightarrow> fst p \<in> set valid_dims"
proof (induction xs arbitrary: seen stk)
  case Nil
  then show ?case by simp
next
  case (Cons x xs)
  obtain key val where x: "x = (key, val)" by (cases x)
  from Cons.prems(1) x have kv: "key \<in> set valid_dims"
    by (auto simp: validate_dim_def split: if_splits)
  from Cons.prems(1) x obtain seen1 stk1 where
    "coords_validate_loop dm xs seen1 stk1 = Inr st"
    by (auto simp: validate_dim_def split: if_splits sum.splits option.splits)
  then show ?case using Cons.IH Cons.prems(2) kv x by auto
qed

lemma coords_validate_loop_tail_keep:
  assumes "coords_validate_loop dm (x # xs) seen stk = Inr st" and "stk d = Some m"
  shows "\<exists>seen1 stk1. coords_validate_loop dm xs seen1 stk1 = Inr st \<and> stk1 d = Some m"
proof -
  obtain key val where x: "x = (key, val)" by (cases x)
  show ?thesis
  proof (cases "key \<notin> set (map snd dm)")
    case False
    then have "coords_validate_loop dm xs (seen @ [key]) stk = Inr st"
      using assms(1) x by (auto simp: validate_dim_def split: if_splits)
    then show ?thesis using assms(2) by blast
  next
    case True
    then obtain d0 n where d0: "map_of dm key = Some d0" and n: "Coord_size val = Inr n"
      using assms(1) x by (auto simp: validate_dim_def split: if_splits sum.splits option.splits)
    show ?thesis
    proof (cases "stk d0")
      case None
      then have "coords_validate_loop dm xs (seen @ [key]) (stk(d0 \<mapsto> n)) = Inr st"
        using assms(1) x True d0 n by (auto simp: validate_dim_def split: if_splits)
      moreover have "d0 \<noteq> d" using None assms(2) by auto
      then have "(stk(d0 \<mapsto> n)) d = Some m" using assms(2) by simp
      ultimately show ?thesis by blast
    next
      case (Some m0)
      then have "coords_validate_loop dm xs (seen @ [key]) stk = Inr st"
        using assms(1) x True d0 n by (auto simp: validate_dim_def split: if_splits)
      then show ?thesis using assms(2) by blast
    qed
  qed
qed

lemma coords_validate_loop_size:
  "coords_validate_loop dm xs seen stk = Inr st \<Longrightarrow> (k, v) \<in> set xs \<Longrightarrow>
   k \<notin> set (map snd dm) \<Longrightarrow> map_of dm k = Some d \<Longrightarrow> stk d = Some m \<Longrightarrow>
   Coord_size v = Inr m"
proof (induction xs arbitrary: seen stk)
  case Nil
  then show ?case by simp
next
  case (Cons x xs)
  obtain seen1 stk1 where
    rest: "coords_validate_loop dm xs seen1 stk1 = Inr st" and
    keep: "stk1 d = Some m"
    using coords_validate_loop_tail_keep[OF Cons.prems(1) Cons.prems(5)] by blast
  show ?case
  proof (cases "x = (k, v)")
    case True
    then show ?thesis
      using Cons.prems
      by (auto simp: validate_dim_def split: if_splits sum.splits option.splits)
  next
    case False
    then have "(k, v) \<in> set xs" using Cons.prems(2) by auto
    then show ?thesis using Cons.IH[OF rest _ Cons.prems(3,4) keep] by simp
  qed
qed

lemma coords_validate_loop_head:
  "coords_validate_loop dm ((k, v) # xs) seen stk = Inr st \<Longrightarrow>
   k \<notin> set (map snd dm) \<Longrightarrow> map_of dm k = Some d \<Longrightarrow>
   \<exists>n seen1 stk1. Coord_size v = Inr n \<and> stk1 d = Some n \<and>
      coords_validate_loop dm xs seen1 stk1 = Inr st"
  by (auto simp: validate_dim_def split: if_splits sum.splits option.splits)

lemma coords_validate_loop_tail:
  "coords_validate_loop dm (x # xs) seen stk = Inr st \<Longrightarrow>
   \<exists>seen1 stk1. coords_validate_loop dm xs seen1 stk1 = Inr st"
  by (cases x) (auto simp: validate_dim_def split: if_splits sum.splits option.splits)

lemma coords_validate_loop_pair:
  "coords_validate_loop dm xs seen stk = Inr st \<Longrightarrow>
   (k1, v1) \<in> set xs \<Longrightarrow> (k2, v2) \<in> set xs \<Longrightarrow>
   k1 \<notin> set (map snd dm) \<Longrightarrow> k2 \<notin> set (map snd dm) \<Longrightarrow>
   map_of dm k1 = Some d \<Longrightarrow> map_of dm k2 = Some d \<Longrightarrow>
   \<exists>n. Coord_size v1 = Inr n \<and> Coord_size v2 = Inr n"
proof (induction xs arbitrary: seen stk)
  case Nil
  then show ?case by simp
next
  case (Cons x xs)
  obtain seen0 stk0 where tl: "coords_validate_loop dm xs seen0 stk0 = Inr st"
    using coords_validate_loop_tail[OF Cons.prems(1)] by blast
  consider (both) "(k1, v1) \<in> set xs" "(k2, v2) \<in> set xs"
    | (first) "x = (k1, v1)" | (second) "x = (k2, v2)"
    using Cons.prems(2,3) by auto
  then show ?case
  proof cases
    case both
    then show ?thesis using Cons.IH[OF tl] Cons.prems(4-7) by blast
  next
    case first
    then obtain n seen1 stk1 where n: "Coord_size v1 = Inr n" "stk1 d = Some n"
      and rest: "coords_validate_loop dm xs seen1 stk1 = Inr st"
      using coords_validate_loop_head[of dm k1 v1 xs seen stk st d] Cons.prems by blast
    show ?thesis
    proof (cases "(k2, v2) = (k1, v1)")
      case True
      then show ?thesis using n by simp
    next
      case False
      then have "(k2, v2) \<in> set xs" using Cons.prems(3) first by auto
      then have "Coord_size v2 = Inr n"
        using coords_validate_loop_size[OF rest _ Cons.prems(5,7) n(2)] by simp
      then show ?thesis using n by simp
    qed
  next
    case second
    then obtain n seen1 stk1 where n: "Coord_size v2 = Inr n" "stk1 d = Some n"
      and rest: "coords_validate_loop dm xs seen1 stk1 = Inr st"
      using coords_validate_loop_head[of dm k2 v2 xs seen stk st d] Cons.prems by blast
    show ?thesis
    proof (cases "(k1, v1) = (k2, v2)")
      case True
      then show ?thesis using n by simp
    next
      case False
      then have "(k1, v1) \<in> set xs" using Cons.prems(2) second by auto
      then have "Coord_size v1 = Inr n"
        using coords_validate_loop_size[OF rest _ Cons.prems(4,6) n(2)] by simp
      then show ?thesis using n by simp
    qed
  qed
qed


lemma unstack_keys_distinct:
  "unstack_keys ks i val acc = Inr r \<Longrightarrow> distinct (map fst acc) \<Longrightarrow> distinct (map fst r)"
  by (induction ks arbitrary: i acc) (auto split: sum.splits simp: distinct_update)

lemma unstack_dict_loop_distinct:
  "unstack_dict_loop dm coords acc = Inr r \<Longrightarrow> distinct (map fst acc) \<Longrightarrow> distinct (map fst r)"
proof (induction coords arbitrary: acc)
  case Nil
  then show ?case by simp
next
  case (Cons p coords)
  obtain key val where p: "p = (key, val)" by (cases p)
  show ?case
  proof (cases "key \<notin> set (map fst dm)")
    case True
    then obtain n where n: "unstack_keys (split_us key) 0 val acc = Inr n"
      and r: "unstack_dict_loop dm coords n = Inr r"
      using Cons.prems(1) p by (auto split: sum.splits)
    from unstack_keys_distinct[OF n Cons.prems(2)] Cons.IH[OF r] show ?thesis by simp
  next
    case False
    then have "unstack_dict_loop dm coords (AList.update key val acc) = Inr r"
      using Cons.prems(1) p by auto
    then show ?thesis using Cons.IH Cons.prems(2) by (simp add: distinct_update)
  qed
qed

lemma make_coords_keys: "make_coords u = Inr uc \<Longrightarrow> map fst uc = map fst u"
  by (induction u arbitrary: uc) (auto split: sum.splits)

lemma Coordinate_init_parts:
  assumes "Coordinate_init coords kws = Inr c"
  shows "dims_map c = get_dims_map coords"
    and "\<exists>u. unstack_dict (dims_map c) coords = Inr u \<and> make_coords u = Inr (u_coords c)"
    and "\<exists>st. coords_validate_loop (dims_map c) (u_coords c) [] Map.empty = Inr st"
    and "coordinate_kwargs c = kws"
  using assms
  by (auto simp: Coordinate_init_def coords_validate_def Let_def split: sum.splits)

lemma Coordinate_init_distinct:
  assumes "Coordinate_init coords kws = Inr c"
  shows "distinct (map fst (u_coords c))"
proof -
  obtain u where u: "unstack_dict (dims_map c) coords = Inr u" "make_coords u = Inr (u_coords c)"
    using Coordinate_init_parts(2)[OF assms] by blast
  have "distinct (map fst u)"
    using unstack_dict_loop_distinct[of "dims_map c" coords "[]" u] u(1)
    by (simp add: unstack_dict_def)
  then show ?thesis using make_coords_keys[OF u(2)] by simp
qed

lemma Coordinate_init_valid:
  assumes "Coordinate_init coords kws = Inr c"
  shows "set (map fst (u_coords c)) \<subseteq> set valid_dims"
proof -
  obtain st where "coords_validate_loop (dims_map c) (u_coords c) [] Map.empty = Inr st"
    using Coordinate_init_parts(3)[OF assms] by blast
  then show ?thesis using coords_validate_loop_valid by fastforce
qed

lemma comps_valid: "k \<in> set valid_dims \<Longrightarrow> comps k = [k]"
  by (simp add: comps_def valid_dims_no_underscore)

lemma dims_map_ok_entry:
  "dims_map_ok dm \<Longrightarrow> (k, d) \<in> set dm \<Longrightarrow> k \<in> set (comps d)"
  by (auto simp: dims_map_ok_def list_all_iff)

lemma same_name_stacked:
  assumes ok: "dims_map_ok dm" and v1: "k1 \<in> set valid_dims" and ne: "k1 \<noteq> k2"
    and m1: "map_of dm k1 = Some d" and m2: "map_of dm k2 = Some d"
  shows "k1 \<notin> set (map snd dm)"
proof
  assume "k1 \<in> set (map snd dm)"
  then obtain k' where k': "(k', k1) \<in> set dm" by auto
  then have "k' = k1" using dims_map_ok_entry[OF ok k'] comps_valid[OF v1] by simp
  then have "map_of dm k1 = Some k1" using k' ok by (simp add: dims_map_ok_def)
  then have "d = k1" using m1 by simp
  then have "(k2, k1) \<in> set dm" using m2 by (simp add: map_of_SomeD)
  then have "k2 = k1" using dims_map_ok_entry[OF ok] comps_valid[OF v1] by fastforce
  then show False using ne by simp
qed

lemma Coordinate_init_sizes:
  assumes init: "Coordinate_init coords kws = Inr c"
    and in1: "(k1, v1) \<in> set (u_coords c)" and in2: "(k2, v2) \<in> set (u_coords c)"
    and m1: "map_of (dims_map c) k1 = Some d" and m2: "map_of (dims_map c) k2 = Some d"
  shows "Coord_size v1 = Coord_size v2"
proof (cases "k1 = k2")
  case True
  then have "v1 = v2"
    using in1 in2 Coordinate_init_distinct[OF init] by (meson eq_key_imp_eq_value)
  then show ?thesis by simp
next
  case False
  have ok: "dims_map_ok (dims_map c)"
    using Coordinate_init_parts(1)[OF init] get_dims_map_ok by simp
  have v: "k1 \<in> set valid_dims" "k2 \<in> set valid_dims"
    using Coordinate_init_valid[OF init] in1 in2 by force+
  have s1: "k1 \<notin> set (map snd (dims_map c))"
    using same_name_stacked[OF ok v(1) False m1 m2] .
  have s2: "k2 \<notin> set (map snd (dims_map c))"
    using same_name_stacked[OF ok v(2) False[symmetric] m2 m1] .
  obtain st where "coords_validate_loop (dims_map c) (u_coords c) [] Map.empty = Inr st"
    using Coordinate_init_parts(3)[OF init] by blast
  from coords_validate_loop_pair[OF this in1 in2 s1 s2 m1 m2] show ?thesis by auto
qed

lemma coords_validate_loop_append:
  "coords_validate_loop dm (xs @ ys) seen stk =
     (case coords_validate_loop dm xs seen stk of
        Inl e \<Rightarrow> Inl e
      | Inr (seen1, stk1) \<Rightarrow> coords_validate_loop dm ys seen1 stk1)"
proof (induction xs arbitrary: seen stk)
  case Nil
  then show ?case by simp
next
  case (Cons x xs)
  obtain key val where x: "x = (key, val)" by (cases x)
  show ?case
  proof (cases "validate_dim key seen")
    case (Inl e)
    then show ?thesis by (simp add: x)
  next
    case (Inr seen1)
    show ?thesis
    proof (cases "key \<notin> set (map snd dm)")
      case False
      then show ?thesis using Inr Cons.IH[of seen1 stk] by (simp add: x)
    next
      case True
      show ?thesis
      proof (cases "map_of dm key")
        case None
        then show ?thesis using Inr True by (simp add: x)
      next
        case (Some d)
        show ?thesis
        proof (cases "Coord_size val")
          case (Inl e)
          then show ?thesis using Inr True Some by (simp add: x split: option.split)
        next
          case sz: (Inr n)
          show ?thesis
          proof (cases "stk d")
            case None
            have a: "coords_validate_loop dm ((key, val) # (xs @ ys)) seen stk =
                     coords_validate_loop dm (xs @ ys) seen1 (stk(d \<mapsto> n))"
              using Inr True Some sz None by simp
            have b: "coords_validate_loop dm ((key, val) # xs) seen stk =
                     coords_validate_loop dm xs seen1 (stk(d \<mapsto> n))"
              using Inr True Some sz None by simp
            show ?thesis unfolding x append_Cons a b by (rule Cons.IH)
          next
            case m: (Some m)
            show ?thesis
            proof (cases "n \<noteq> m")
              case ne: True
              then show ?thesis using Inr True Some sz m by (simp add: x)
            next
              case eq: False
              have a: "coords_validate_loop dm ((key, val) # (xs @ ys)) seen stk =
                       coords_validate_loop dm (xs @ ys) seen1 stk"
                using Inr True Some sz m eq by simp
              have b: "coords_validate_loop dm ((key, val) # xs) seen stk =
                       coords_validate_loop dm xs seen1 stk"
                using Inr True Some sz m eq by simp
              show ?thesis unfolding x append_Cons a b by (rule Cons.IH)
            qed
          qed
        qed
      qed
    qed
  qed
qed

lemma Coordinate_init_invalid_dim:
  assumes u: "unstack_dict (get_dims_map coords) coords = Inr u"
    and mk: "make_coords u = Inr (pre @ (k, v) # post)"
    and k: "k \<notin> set valid_dims"
    and pre: "coords_validate_loop (get_dims_map coords) pre [] Map.empty = Inr st"
  shows "Coordinate_init coords kws = Inl (InvalidDimension k)"
proof -
  obtain seen1 stk1 where st: "st = (seen1, stk1)" by (cases st)
  have "coords_validate_loop (get_dims_map coords) (pre @ (k, v) # post) [] Map.empty
          = Inl (InvalidDimension k)"
    using pre k by (simp add: coords_validate_loop_append st validate_dim_def)
  then show ?thesis
    using u mk by (simp add: Coordinate_init_def coords_validate_def Let_def)
qed


lemma split_on_append_sep:
  "c \<notin> set k \<Longrightarrow> split_on c (k @ c # s) = k # split_on c s"
  by (induction k) (auto split: list.splits simp: split_on_nonempty)

lemma Coordinate_init_two_stacked:
  assumes v1: "k1 \<in> set valid_dims" and v2: "k2 \<in> set valid_dims" and ne: "k1 \<noteq> k2"
    and sa: "Coord_size a = Inr m" and sb: "Coord_size b = Inr n" and mn: "m \<noteq> n"
  shows "Coordinate_init [(k1 @ ''_'' @ k2, Many [a, b])] kws =
           Inl (StackedSizeMismatch k2 (k1 @ ''_'' @ k2))"
proof -
  let ?name = "k1 @ CHR ''_'' # k2"
  have u1: "CHR ''_'' \<notin> set k1" and u2: "CHR ''_'' \<notin> set k2"
    using v1 v2 valid_dims_no_underscore by auto
  have sp: "split_us ?name = [k1, k2]"
    using split_on_append_sep[OF u1, of k2] split_on_without_sep[OF u2]
    by (simp add: split_us_def)
  have n1: "?name \<noteq> k1" and n2: "?name \<noteq> k2" using u1 u2 by auto
  have n1': "k1 \<noteq> ?name" and n2': "k2 \<noteq> ?name" using n1 n2 by auto
  have dm: "get_dims_map [(?name, Many [a, b])] = [(k1, ?name), (k2, ?name)]"
    using ne by (simp add: get_dims_map_def sp)
  have un: "unstack_dict [(k1, ?name), (k2, ?name)] [(?name, Many [a, b])]
              = Inr [(k1, One a), (k2, One b)]"
    using ne n1 n2 by (simp add: unstack_dict_def sp getitem_def)
  have mk: "make_coords [(k1, One a), (k2, One b)] = Inr [(k1, a), (k2, b)]"
    by (simp add: make_coord_def)
  have va: "coords_validate [(k1, ?name), (k2, ?name)] [(k1, a), (k2, b)]
              = Inl (StackedSizeMismatch k2 ?name)"
    using v1 v2 ne n1' n2' sa sb mn
    by (simp add: coords_validate_def validate_dim_def)
  have "Coordinate_init [(?name, Many [a, b])] kws = Inl (StackedSizeMismatch k2 ?name)"
    unfolding Coordinate_init_def Let_def dm un sum.case mk va by simp
  then show ?thesis by simp
qed


lemma okeys_append: "okeys acc (xs @ ys) = okeys (okeys acc xs) ys"
  by (induction xs arbitrary: acc) simp_all

lemma set_okeys: "set (okeys acc ks) = set acc \<union> set ks"
  by (induction ks arbitrary: acc) auto

lemma update_okeys: "map fst (AList.update k v al) = okeys (map fst al) [k]"
  by (simp add: update_keys)

lemma fold_update_okeys:
  "map fst (fold (\<lambda>k a. AList.update k c a) ks al) = okeys (map fst al) ks"
  by (induction ks arbitrary: al) (simp_all add: update_keys)

lemma get_dims_map_loop_keys:
  "map fst (get_dims_map_loop coords acc) =
     okeys (map fst acc) (concat (map (\<lambda>p. comps (fst p)) coords))"
proof (induction coords arbitrary: acc)
  case Nil
  then show ?case by simp
next
  case (Cons p coords)
  obtain c v where p: "p = (c, v)" by (cases p)
  show ?case
    unfolding p
    by (simp add: Cons.IH okeys_append comps_def fold_update_okeys update_keys)
qed

lemma unstack_keys_keys:
  "unstack_keys ks i val acc = Inr r \<Longrightarrow> map fst r = okeys (map fst acc) ks"
  by (induction ks arbitrary: i acc) (auto split: sum.splits simp: update_keys)

lemma unstack_dict_loop_keys:
  assumes "unstack_dict_loop dm coords acc = Inr r"
    and "\<And>p. p \<in> set coords \<Longrightarrow> (fst p \<in> set (map fst dm)) = (CHR ''_'' \<notin> set (fst p))"
  shows "map fst r = okeys (map fst acc) (concat (map (\<lambda>p. comps (fst p)) coords))"
  using assms
proof (induction coords arbitrary: acc)
  case Nil
  then show ?case by simp
next
  case (Cons p coords)
  obtain key val where p: "p = (key, val)" by (cases p)
  have cond: "(key \<in> set (map fst dm)) = (CHR ''_'' \<notin> set key)"
    using Cons.prems(2)[of p] p by simp
  have rest: "\<And>q. q \<in> set coords \<Longrightarrow> (fst q \<in> set (map fst dm)) = (CHR ''_'' \<notin> set (fst q))"
    using Cons.prems(2) by simp
  show ?case
  proof (cases "CHR ''_'' \<in> set key")
    case True
    then have "key \<notin> set (map fst dm)" using cond by simp
    then obtain n where n: "unstack_keys (split_us key) 0 val acc = Inr n"
      and r: "unstack_dict_loop dm coords n = Inr r"
      using Cons.prems(1) p by (auto split: sum.splits)
    show ?thesis
      using Cons.IH[OF r rest] unstack_keys_keys[OF n] True
      by (simp add: p okeys_append comps_def)
  next
    case False
    then have "key \<in> set (map fst dm)" using cond by simp
    then have r: "unstack_dict_loop dm coords (AList.update key val acc) = Inr r"
      using Cons.prems(1) p by auto
    show ?thesis
      using Cons.IH[OF r rest] False
      by (simp add: p comps_def update_keys)
  qed
qed

lemma get_dims_map_keys_set:
  "set (map fst (get_dims_map coords)) = (\<Union>p \<in> set coords. set (comps (fst p)))"
  by (simp add: get_dims_map_def get_dims_map_loop_keys set_okeys)

lemma comps_no_underscore: "k \<in> set (comps c) \<Longrightarrow> CHR ''_'' \<notin> set k"
  using split_on_no_sep[of k "CHR ''_''" c] by (auto simp: comps_def split_us_def split: if_splits)

lemma get_dims_map_names:
  assumes "p \<in> set coords"
  shows "(fst p \<in> set (map fst (get_dims_map coords))) = (CHR ''_'' \<notin> set (fst p))"
proof
  assume "fst p \<in> set (map fst (get_dims_map coords))"
  then obtain q where "q \<in> set coords" "fst p \<in> set (comps (fst q))"
    unfolding get_dims_map_keys_set by blast
  then show "CHR ''_'' \<notin> set (fst p)" using comps_no_underscore by blast
next
  assume "CHR ''_'' \<notin> set (fst p)"
  then have "fst p \<in> set (comps (fst p))" by (simp add: comps_def)
  then show "fst p \<in> set (map fst (get_dims_map coords))"
    unfolding get_dims_map_keys_set using assms by blast
qed

lemma Coordinate_init_keys:
  assumes "Coordinate_init coords kws = Inr c"
  shows "map fst (u_coords c) = map fst (dims_map c)"
proof -
  have dm: "dims_map c = get_dims_map coords" using Coordinate_init_parts(1)[OF assms] .
  obtain u where u: "unstack_dict (dims_map c) coords = Inr u" "make_coords u = Inr (u_coords c)"
    using Coordinate_init_parts(2)[OF assms] by blast
  have "map fst u = okeys [] (concat (map (\<lambda>p. comps (fst p)) coords))"
    using unstack_dict_loop_keys[of "get_dims_map coords" coords "[]" u] u(1) dm
      get_dims_map_names[of _ coords]
    by (simp add: unstack_dict_def)
  moreover have "map fst (dims_map c) = okeys [] (concat (map (\<lambda>p. comps (fst p)) coords))"
    using get_dims_map_loop_keys[of coords "[]"] dm by (simp add: get_dims_map_def)
  ultimately show ?thesis using make_coords_keys[OF u(2)] by simp
qed

subsection \<open>The loops of shape and dims\<close>

lemma dims_loop_prefix: "i < length seen \<Longrightarrow> dims_loop vs seen ! i = seen ! i"
  by (induction vs arbitrary: seen) (simp_all add: nth_append)

lemma dims_loop_length: "length seen \<le> length (dims_loop vs seen)"
proof (induction vs arbitrary: seen)
  case Nil
  then show ?case by simp
next
  case (Cons v vs)
  have "length seen \<le> length (if v \<notin> set seen then seen @ [v] else seen)" by simp
  also have "\<dots> \<le> length (dims_loop vs (if v \<notin> set seen then seen @ [v] else seen))"
    by (rule Cons.IH)
  finally show ?case by simp
qed

lemma get_shape_loop_lockstep:
  assumes "get_shape_loop xs c shape seen = Inr sh"
    and "map fst xs = map fst ds"
    and "\<And>k v. (k, v) \<in> set xs \<Longrightarrow> map_of (u_coords c) k = Some v"
    and "\<And>k d. (k, d) \<in> set ds \<Longrightarrow> map_of (dims_map c) k = Some d"
    and "length shape = length seen"
  shows "length sh = length (dims_loop (map snd ds) seen)
       \<and> (\<forall>i < length shape. sh ! i = shape ! i)
       \<and> (\<forall>i. length shape \<le> i \<and> i < length sh \<longrightarrow>
            (\<exists>k v. (k, v) \<in> set xs \<and> (k, dims_loop (map snd ds) seen ! i) \<in> set ds
                   \<and> Coord_size v = Inr (sh ! i)))"
  using assms
proof (induction xs arbitrary: ds shape seen)
  case Nil
  then show ?case by simp
next
  case (Cons x xs)
  obtain k v where x: "x = (k, v)" by (cases x)
  obtain d ds' where ds: "ds = (k, d) # ds'" and keys: "map fst xs = map fst ds'"
    using Cons.prems(2) x by (cases ds) auto
  have lv: "map_of (u_coords c) k = Some v" using Cons.prems(3)[of k v] x by simp
  have ld: "map_of (dims_map c) k = Some d" using Cons.prems(4)[of k d] ds by simp
  have p3: "\<And>k v. (k, v) \<in> set xs \<Longrightarrow> map_of (u_coords c) k = Some v"
    using Cons.prems(3) by simp
  have p4: "\<And>k d. (k, d) \<in> set ds' \<Longrightarrow> map_of (dims_map c) k = Some d"
    using Cons.prems(4) ds by simp
  obtain n where n: "Coord_size v = Inr n"
    using Cons.prems(1) x lv by (auto split: sum.splits)
  show ?case
  proof (cases "d \<in> set seen")
    case True
    then have r: "get_shape_loop xs c shape seen = Inr sh"
      using Cons.prems(1) x lv ld n by simp
    have dl: "dims_loop (map snd ds) seen = dims_loop (map snd ds') seen"
      using True ds by simp
    note ih = Cons.IH[OF r keys p3 p4 Cons.prems(5)]
    have a: "length sh = length (dims_loop (map snd ds) seen)" using ih dl by simp
    have b: "\<forall>i < length shape. sh ! i = shape ! i" using ih by simp
    have c': "\<exists>k v. (k, v) \<in> set (x # xs) \<and> (k, dims_loop (map snd ds) seen ! i) \<in> set ds
                   \<and> Coord_size v = Inr (sh ! i)"
      if i: "length shape \<le> i \<and> i < length sh" for i
    proof -
      obtain k' v' where "(k', v') \<in> set xs"
        "(k', dims_loop (map snd ds') seen ! i) \<in> set ds'" "Coord_size v' = Inr (sh ! i)"
        using ih i by blast
      then have "(k', v') \<in> set (x # xs) \<and> (k', dims_loop (map snd ds) seen ! i) \<in> set ds
                   \<and> Coord_size v' = Inr (sh ! i)"
        using True by (simp add: ds)
      then show ?thesis by blast
    qed
    show ?thesis using a b c' by blast
  next
    case False
    then have r: "get_shape_loop xs c (shape @ [n]) (seen @ [d]) = Inr sh"
      using Cons.prems(1) x lv ld n by simp
    have dl: "dims_loop (map snd ds) seen = dims_loop (map snd ds') (seen @ [d])"
      using False ds by simp
    have len: "length (shape @ [n]) = length (seen @ [d])" using Cons.prems(5) by simp
    note ih = Cons.IH[OF r keys p3 p4 len]
    have a: "length sh = length (dims_loop (map snd ds) seen)" using ih dl by simp
    have b: "\<forall>i < length shape. sh ! i = shape ! i"
      using ih by (auto simp: nth_append)
    have shn: "sh ! length shape = n" using ih by (auto simp: nth_append)
    have dn: "dims_loop (map snd ds') (seen @ [d]) ! length shape = d"
      using dims_loop_prefix[of "length shape" "seen @ [d]" "map snd ds'"] Cons.prems(5)
      by (simp add: nth_append)
    have c': "\<exists>k v. (k, v) \<in> set (x # xs) \<and> (k, dims_loop (map snd ds) seen ! i) \<in> set ds
                   \<and> Coord_size v = Inr (sh ! i)"
      if i: "length shape \<le> i \<and> i < length sh" for i
    proof (cases "i = length shape")
      case True
      have "(k, v) \<in> set (x # xs) \<and> (k, dims_loop (map snd ds) seen ! i) \<in> set ds
                   \<and> Coord_size v = Inr (sh ! i)"
        using n x dn shn True \<open>d \<notin> set seen\<close> by (simp add: ds)
      then show ?thesis by blast
    next
      case False
      then have "length (shape @ [n]) \<le> i \<and> i < length sh" using i by simp
      then obtain k' v' where "(k', v') \<in> set xs"
        "(k', dims_loop (map snd ds') (seen @ [d]) ! i) \<in> set ds'" "Coord_size v' = Inr (sh ! i)"
        using ih by blast
      then have "(k', v') \<in> set (x # xs) \<and> (k', dims_loop (map snd ds) seen ! i) \<in> set ds
                   \<and> Coord_size v' = Inr (sh ! i)"
        using \<open>d \<notin> set seen\<close> by (simp add: ds)
      then show ?thesis by blast
    qed
    show ?thesis using a b c' by blast
  qed
qed

lemma get_shape_loop_returns:
  assumes "map fst xs = map fst ds"
    and "\<And>k v. (k, v) \<in> set xs \<Longrightarrow> map_of (u_coords c) k = Some v"
    and "\<And>k d. (k, d) \<in> set ds \<Longrightarrow> map_of (dims_map c) k = Some d"
    and "\<And>k v. (k, v) \<in> set xs \<Longrightarrow> \<exists>n. Coord_size v = Inr n"
  shows "\<exists>sh. get_shape_loop xs c shape seen = Inr sh"
  using assms
proof (induction xs arbitrary: ds shape seen)
  case Nil
  then show ?case by simp
next
  case (Cons x xs)
  obtain k v where x: "x = (k, v)" by (cases x)
  obtain d ds' where ds: "ds = (k, d) # ds'" and keys: "map fst xs = map fst ds'"
    using Cons.prems(1) x by (cases ds) auto
  have lv: "map_of (u_coords c) k = Some v" using Cons.prems(2)[of k v] x by simp
  have ld: "map_of (dims_map c) k = Some d" using Cons.prems(3)[of k d] ds by simp
  obtain n where n: "Coord_size v = Inr n" using Cons.prems(4)[of k v] x by auto
  have p2: "\<And>k v. (k, v) \<in> set xs \<Longrightarrow> map_of (u_coords c) k = Some v"
    using Cons.prems(2) by simp
  have p3: "\<And>k d. (k, d) \<in> set ds' \<Longrightarrow> map_of (dims_map c) k = Some d"
    using Cons.prems(3) ds by simp
  have p4: "\<And>k v. (k, v) \<in> set xs \<Longrightarrow> \<exists>n. Coord_size v = Inr n"
    using Cons.prems(4) by (meson list.set_intros(2))
  show ?case
    using Cons.IH[OF keys p2 p3 p4] x lv ld n by simp
qed


lemma update_fresh: "k \<notin> set (map fst al) \<Longrightarrow> AList.update k v al = al @ [(k, v)]"
  by (induction al) auto

lemma update_last_entry:
  "k \<notin> set (map fst al) \<Longrightarrow> AList.update k v' (al @ [(k, v)]) = al @ [(k, v')]"
  by (induction al) auto

lemma map_of_last_entry: "k \<notin> set (map fst al) \<Longrightarrow> map_of (al @ [(k, v)]) k = Some v"
  by (induction al) auto

lemma map_of_fresh: "k \<notin> set (map fst al) \<Longrightarrow> map_of al k = None"
  by (simp add: map_of_eq_None_iff)

lemma fold_update_fresh:
  "distinct (map fst acc @ ks) \<Longrightarrow>
     fold (\<lambda>k a. AList.update k c a) ks acc = acc @ map (\<lambda>k. (k, c)) ks"
proof (induction ks arbitrary: acc)
  case Nil
  then show ?case by simp
next
  case (Cons k ks)
  have f: "k \<notin> set (map fst acc)" using Cons.prems by auto
  have d: "distinct (map fst (acc @ [(k, c)]) @ ks)" using Cons.prems by auto
  show ?case using Cons.IH[OF d] by (simp add: update_fresh[OF f])
qed

lemma flat_keys_Cons: "flat_keys (p # coords) = comps (fst p) @ flat_keys coords"
  by (simp add: flat_keys_def)

lemma dm_flat_Cons:
  "dm_flat (p # coords) = map (\<lambda>k. (k, fst p)) (comps (fst p)) @ dm_flat coords"
  by (simp add: dm_flat_def)

lemma dm_flat_keys: "map fst (dm_flat coords) = flat_keys coords"
  by (induction coords) (simp_all add: flat_keys_def dm_flat_def comp_def)

lemma dm_flat_names: "map fst xs = map fst ys \<Longrightarrow> dm_flat xs = dm_flat ys"
proof (induction xs arbitrary: ys)
  case Nil
  then show ?case by (simp add: dm_flat_def)
next
  case (Cons x xs)
  then obtain y ys' where ys: "ys = y # ys'" "fst x = fst y" "map fst xs = map fst ys'"
    by (cases ys) auto
  then show ?case using Cons.IH[of ys'] by (simp add: dm_flat_Cons)
qed

lemma flat_keys_names: "map fst xs = map fst ys \<Longrightarrow> flat_keys xs = flat_keys ys"
  using dm_flat_names[of xs ys] dm_flat_keys[of xs] dm_flat_keys[of ys] by simp

lemma get_dims_map_loop_flat:
  "distinct (map fst acc @ flat_keys coords) \<Longrightarrow>
     get_dims_map_loop coords acc = acc @ dm_flat coords"
proof (induction coords arbitrary: acc)
  case Nil
  then show ?case by (simp add: dm_flat_def)
next
  case (Cons p coords)
  obtain c v where p: "p = (c, v)" by (cases p)
  have d1: "distinct (map fst acc @ comps c)"
    using Cons.prems p by (auto simp: flat_keys_Cons)
  have step: "(if CHR ''_'' \<in> set c
        then fold (\<lambda>cc acc. AList.update cc c acc) (split_us c) acc
        else AList.update c c acc) = acc @ map (\<lambda>k. (k, c)) (comps c)"
  proof (cases "CHR ''_'' \<in> set c")
    case True
    then show ?thesis using fold_update_fresh[of acc "split_us c" c] d1 by (simp add: comps_def)
  next
    case False
    then have "c \<notin> set (map fst acc)" using d1 by (simp add: comps_def)
    then show ?thesis using False by (simp add: update_fresh comps_def)
  qed
  have d2: "distinct (map fst (acc @ map (\<lambda>k. (k, c)) (comps c)) @ flat_keys coords)"
    using Cons.prems p by (auto simp: flat_keys_Cons comp_def)
  show ?case
    unfolding p get_dims_map_loop.simps step
    using Cons.IH[OF d2] by (simp add: dm_flat_Cons)
qed

lemma get_dims_map_flat:
  "distinct (flat_keys coords) \<Longrightarrow> get_dims_map coords = dm_flat coords"
  using get_dims_map_loop_flat[of "[]" coords] by (simp add: get_dims_map_def)

subsection \<open>The loop of intersect\<close>

lemma intersect_loop_shape:
  assumes "intersect_loop xs i other pad acc = Inr new"
    and "distinct (map fst acc @ map fst xs)"
  shows "\<exists>ys. new = acc @ ys \<and> map fst ys = map fst xs
           \<and> (\<forall>k v. (k, v) \<in> set xs \<and> map_of other k = None \<longrightarrow> (k, v) \<in> set ys)"
  using assms
proof (induction xs arbitrary: i acc)
  case Nil
  then show ?case by simp
next
  case (Cons x xs)
  obtain d c where x: "x = (d, c)" by (cases x)
  have f: "d \<notin> set (map fst acc)" using Cons.prems(2) x by auto
  obtain c1 where r: "intersect_loop xs (Suc i) other pad (acc @ [(d, c1)]) = Inr new"
    and keep: "map_of other d = None \<longrightarrow> c1 = c"
    using Cons.prems(1) x update_fresh[OF f]
    by (auto split: sum.splits option.splits ibresult.splits)
  have dd: "distinct (map fst (acc @ [(d, c1)]) @ map fst xs)" using Cons.prems(2) x by auto
  obtain ys where ys: "new = (acc @ [(d, c1)]) @ ys" "map fst ys = map fst xs"
    "\<forall>k v. (k, v) \<in> set xs \<and> map_of other k = None \<longrightarrow> (k, v) \<in> set ys"
    using Cons.IH[OF r dd] by blast
  have "new = acc @ ((d, c1) # ys)" using ys(1) by simp
  moreover have "map fst ((d, c1) # ys) = map fst (x # xs)" using ys(2) x by simp
  moreover have "\<forall>k v. (k, v) \<in> set (x # xs) \<and> map_of other k = None \<longrightarrow> (k, v) \<in> set ((d, c1) # ys)"
    using ys(3) keep x by auto
  ultimately show ?case by blast
qed

subsection \<open>Stacking\<close>

lemma stack_dict_loop_more:
  assumes "name \<notin> set (map fst acc)" and "set ks \<subseteq> set (map fst new)"
  shows "stack_dict_loop (map (\<lambda>k. (k, name)) ks @ rest) new (acc @ [(name, V)]) =
         stack_dict_loop rest new (acc @ [(name, ext new V ks)])"
  using assms(2)
proof (induction ks arbitrary: V)
  case Nil
  then show ?case by simp
next
  case (Cons k ks)
  obtain c where c: "map_of new k = Some c"
    using Cons.prems by (cases "map_of new k") (auto simp: map_of_eq_None_iff)
  have lk: "look new k = c" using c by (simp add: look_def)
  let ?V = "Many ((case V of One t \<Rightarrow> [t] | Many ts \<Rightarrow> ts) @ [c])"
  have "stack_dict_loop (map (\<lambda>k. (k, name)) (k # ks) @ rest) new (acc @ [(name, V)]) =
        stack_dict_loop (map (\<lambda>k. (k, name)) ks @ rest) new (acc @ [(name, ?V)])"
    using c by (simp add: map_of_last_entry[OF assms(1)] update_last_entry[OF assms(1)]
        del: map_of_append)
  also have "\<dots> = stack_dict_loop rest new (acc @ [(name, ext new ?V ks)])"
    using Cons.IH[of ?V] Cons.prems by simp
  also have "ext new ?V ks = ext new V (k # ks)"
    by (cases ks) (simp_all add: lk)
  finally show ?case .
qed

lemma stack_dict_loop_group:
  assumes "name \<notin> set (map fst acc)" and "set ks \<subseteq> set (map fst new)" and "ks \<noteq> []"
  shows "stack_dict_loop (map (\<lambda>k. (k, name)) ks @ rest) new acc =
         stack_dict_loop rest new (acc @ [(name, grp new ks)])"
proof -
  obtain k ks' where ks: "ks = k # ks'" using assms(3) by (cases ks) auto
  obtain c where c: "map_of new k = Some c"
    using assms(2) ks by (cases "map_of new k") (auto simp: map_of_eq_None_iff)
  have lk: "look new k = c" using c by (simp add: look_def)
  have "stack_dict_loop (map (\<lambda>k. (k, name)) ks @ rest) new acc =
        stack_dict_loop (map (\<lambda>k. (k, name)) ks' @ rest) new (acc @ [(name, One c)])"
    using c by (simp add: ks map_of_fresh[OF assms(1)] update_fresh[OF assms(1)]
        del: map_of_append)
  also have "\<dots> = stack_dict_loop rest new (acc @ [(name, ext new (One c) ks')])"
    using stack_dict_loop_more[OF assms(1), of ks' new rest "One c"] assms(2) ks by simp
  also have "ext new (One c) ks' = grp new ks"
    by (cases ks') (simp_all add: grp_def ks lk)
  finally show ?thesis .
qed

lemma comps_nonempty: "comps c \<noteq> []"
  by (simp add: comps_def split_us_def split_on_nonempty)

lemma stack_dict_loop_flat:
  assumes "distinct (map fst acc @ map fst coords)"
    and "set (flat_keys coords) \<subseteq> set (map fst new)"
  shows "stack_dict_loop (dm_flat coords) new acc =
         Inr (acc @ map (\<lambda>p. (fst p, grp new (comps (fst p)))) coords)"
  using assms
proof (induction coords arbitrary: acc)
  case Nil
  then show ?case by (simp add: dm_flat_def)
next
  case (Cons p coords)
  have f: "fst p \<notin> set (map fst acc)" using Cons.prems(1) by auto
  have s: "set (comps (fst p)) \<subseteq> set (map fst new)"
    using Cons.prems(2) by (simp add: flat_keys_Cons)
  have d: "distinct (map fst (acc @ [(fst p, grp new (comps (fst p)))]) @ map fst coords)"
    using Cons.prems(1) by auto
  have s2: "set (flat_keys coords) \<subseteq> set (map fst new)"
    using Cons.prems(2) by (simp add: flat_keys_Cons)
  show ?case
    unfolding dm_flat_Cons
    using stack_dict_loop_group[OF f s comps_nonempty, of "dm_flat coords"]
      Cons.IH[OF d s2]
    by simp
qed


lemma split_on_two: "c \<in> set s \<Longrightarrow> 2 \<le> length (split_on c s)"
proof (induction s)
  case Nil
  then show ?case by simp
next
  case (Cons x xs)
  show ?case
  proof (cases "x = c")
    case True
    then show ?thesis using split_on_nonempty[of c xs] by (cases "split_on c xs") auto
  next
    case False
    then have "c \<in> set xs" using Cons.prems by simp
    then have "2 \<le> length (split_on c xs)" by (rule Cons.IH)
    then show ?thesis using False by (cases "split_on c xs") auto
  qed
qed

lemma grp_stacked:
  "CHR ''_'' \<in> set name \<Longrightarrow> grp new (comps name) = Many (map (look new) (split_us name))"
proof -
  assume a: "CHR ''_'' \<in> set name"
  then have "2 \<le> length (split_us name)" unfolding split_us_def by (rule split_on_two)
  then obtain k1 k2 ks where "split_us name = k1 # k2 # ks"
    by (cases "split_us name"; cases "tl (split_us name)") auto
  then show ?thesis using a by (simp add: grp_def comps_def)
qed

lemma grp_unstacked:
  "CHR ''_'' \<notin> set name \<Longrightarrow> grp new (comps name) = One (look new name)"
  by (simp add: grp_def comps_def)

lemma unstack_keys_many:
  assumes "distinct (map fst acc @ ks)"
  shows "unstack_keys ks (length pre) (Many (pre @ map f ks)) acc =
           Inr (acc @ map (\<lambda>k. (k, One (f k))) ks)"
  using assms
proof (induction ks arbitrary: pre acc)
  case Nil
  then show ?case by simp
next
  case (Cons k ks)
  have fr: "k \<notin> set (map fst acc)" using Cons.prems by auto
  have d: "distinct (map fst (acc @ [(k, One (f k))]) @ ks)" using Cons.prems by auto
  have g: "getitem (Many (pre @ map f (k # ks))) (length pre) = Inr (One (f k))"
    by (simp add: getitem_def nth_append)
  have "unstack_keys (k # ks) (length pre) (Many (pre @ map f (k # ks))) acc =
        unstack_keys ks (length (pre @ [f k])) (Many ((pre @ [f k]) @ map f ks))
          (acc @ [(k, One (f k))])"
    using g by (simp add: update_fresh[OF fr])
  also have "\<dots> = Inr ((acc @ [(k, One (f k))]) @ map (\<lambda>k. (k, One (f k))) ks)"
    by (rule Cons.IH[OF d])
  finally show ?case by simp
qed

lemma unstack_dict_loop_restacked:
  assumes "distinct (map fst acc @ flat_keys coords)"
    and "\<And>p. p \<in> set coords \<Longrightarrow> (fst p \<in> set (map fst dm)) = (CHR ''_'' \<notin> set (fst p))"
  shows "unstack_dict_loop dm (map (\<lambda>p. (fst p, grp new (comps (fst p)))) coords) acc =
           Inr (acc @ map (\<lambda>k. (k, One (look new k))) (flat_keys coords))"
  using assms
proof (induction coords arbitrary: acc)
  case Nil
  then show ?case by (simp add: flat_keys_def)
next
  case (Cons p coords)
  let ?name = "fst p"
  have cond: "(?name \<in> set (map fst dm)) = (CHR ''_'' \<notin> set ?name)"
    using Cons.prems(2)[of p] by simp
  have rest: "\<And>q. q \<in> set coords \<Longrightarrow> (fst q \<in> set (map fst dm)) = (CHR ''_'' \<notin> set (fst q))"
    using Cons.prems(2) by simp
  have d1: "distinct (map fst acc @ comps ?name)"
    using Cons.prems(1) by (auto simp: flat_keys_Cons)
  let ?acc = "acc @ map (\<lambda>k. (k, One (look new k))) (comps ?name)"
  have d2: "distinct (map fst ?acc @ flat_keys coords)"
    using Cons.prems(1) by (auto simp: flat_keys_Cons comp_def)
  have step: "unstack_dict_loop dm ((?name, grp new (comps ?name)) # rest') acc =
              unstack_dict_loop dm rest' ?acc" for rest'
  proof (cases "CHR ''_'' \<in> set ?name")
    case True
    then have nk: "?name \<notin> set (map fst dm)" using cond by simp
    have "unstack_keys (split_us ?name) 0 (Many (map (look new) (split_us ?name))) acc =
            Inr (acc @ map (\<lambda>k. (k, One (look new k))) (split_us ?name))"
      using unstack_keys_many[of acc "split_us ?name" "[]" "look new"] d1 True
      by (simp add: comps_def)
    moreover have c1: "comps ?name = split_us ?name" using True by (simp add: comps_def)
    moreover have "grp new (comps ?name) = Many (map (look new) (split_us ?name))"
      using True by (rule grp_stacked)
    ultimately show ?thesis using nk by simp
  next
    case False
    then have ik: "?name \<in> set (map fst dm)" using cond by simp
    have fr: "?name \<notin> set (map fst acc)" using d1 False by (simp add: comps_def)
    have c1: "comps ?name = [?name]" using False by (simp add: comps_def)
    have "grp new (comps ?name) = One (look new ?name)" using False by (rule grp_unstacked)
    then show ?thesis using ik by (simp add: c1 update_fresh[OF fr])
  qed
  show ?case
    using step[of "map (\<lambda>p. (fst p, grp new (comps (fst p)))) coords"] Cons.IH[OF d2 rest]
    by (simp add: flat_keys_Cons)
qed

lemma make_coords_One:
  "make_coords (map (\<lambda>k. (k, One (f k))) ks) = Inr (map (\<lambda>k. (k, f k)) ks)"
  by (induction ks) (simp_all add: make_coord_def)

lemma look_entry:
  "distinct (map fst new) \<Longrightarrow> p \<in> set new \<Longrightarrow> look new (fst p) = snd p"
  by (cases p) (simp add: look_def)

lemma look_rebuild:
  assumes "distinct (map fst new)"
  shows "map (\<lambda>k. (k, look new k)) (map fst new) = new"
proof -
  have "map (\<lambda>p. (fst p, look new (fst p))) new = map (\<lambda>p. p) new"
    by (rule map_cong) (simp_all add: look_entry[OF assms])
  then show ?thesis by (simp add: comp_def)
qed

lemma flat_keys_distinct_names:
  "distinct (flat_keys coords) \<Longrightarrow> distinct (map fst coords)"
proof (induction coords)
  case Nil
  then show ?case by simp
next
  case (Cons p coords)
  have d: "distinct (flat_keys coords)" and dj: "set (comps (fst p)) \<inter> set (flat_keys coords) = {}"
    using Cons.prems by (auto simp: flat_keys_Cons)
  have "fst p \<notin> set (map fst coords)"
  proof
    assume "fst p \<in> set (map fst coords)"
    then obtain q where q: "q \<in> set coords" "fst q = fst p" by auto
    then have "set (comps (fst p)) \<subseteq> set (flat_keys coords)" by (auto simp: flat_keys_def)
    then show False using dj comps_nonempty[of "fst p"] by (cases "comps (fst p)") auto
  qed
  then show ?case using Cons.IH[OF d] by simp
qed

lemma Coordinate_intersect_structure:
  assumes init: "Coordinate_init coordsA kws = Inr A"
    and dist: "distinct (flat_keys coordsA)"
    and isect: "Coordinate_intersect A B pad = Inr R"
  shows "dims_map R = dims_map A"
    and "\<exists>new. intersect_loop (u_coords A) 0 (u_coords B) pad [] = Inr new \<and> u_coords R = new"
proof -
  have dmA: "dims_map A = dm_flat coordsA"
    using Coordinate_init_parts(1)[OF init] get_dims_map_flat[OF dist] by simp
  have keysA: "map fst (u_coords A) = flat_keys coordsA"
    using Coordinate_init_keys[OF init] dmA dm_flat_keys by simp
  obtain new stacked where new: "intersect_loop (u_coords A) 0 (u_coords B) pad [] = Inr new"
    and st: "stack_dict new (dims_map A) = Inr stacked"
    and r: "Coordinate_init stacked (coordinate_kwargs A) = Inr R"
    using isect by (auto simp: Coordinate_intersect_def split: sum.splits)
  have dA: "distinct (map fst [] @ map fst (u_coords A))" using keysA dist by simp
  obtain ys where "new = [] @ ys" "map fst ys = map fst (u_coords A)"
    using intersect_loop_shape[OF new dA] by blast
  then have keysN: "map fst new = flat_keys coordsA" using keysA by simp
  have dn: "distinct (map fst [] @ map fst coordsA)"
    using flat_keys_distinct_names[OF dist] by simp
  have stacked: "stacked = map (\<lambda>p. (fst p, grp new (comps (fst p)))) coordsA"
    using st stack_dict_loop_flat[OF dn, of new] keysN dmA by (simp add: stack_dict_def)
  have names: "map fst stacked = map fst coordsA" by (simp add: stacked comp_def)
  have fk: "flat_keys stacked = flat_keys coordsA" using flat_keys_names[OF names] .
  have dmR: "dims_map R = dm_flat coordsA"
    using Coordinate_init_parts(1)[OF r] get_dims_map_flat[of stacked] dist fk
      dm_flat_names[OF names] by simp
  show "dims_map R = dims_map A" using dmR dmA by simp
  obtain u where u: "unstack_dict (dims_map R) stacked = Inr u" "make_coords u = Inr (u_coords R)"
    using Coordinate_init_parts(2)[OF r] by blast
  have cond: "\<And>p. p \<in> set coordsA \<Longrightarrow>
      (fst p \<in> set (map fst (dims_map R))) = (CHR ''_'' \<notin> set (fst p))"
    using get_dims_map_names[of _ coordsA] Coordinate_init_parts(1)[OF init] dmA dmR by simp
  have "unstack_dict (dims_map R) stacked =
          Inr (map (\<lambda>k. (k, One (look new k))) (flat_keys coordsA))"
    using unstack_dict_loop_restacked[of "[]" coordsA "dims_map R" new] dist cond
    by (simp add: unstack_dict_def stacked)
  then have "u = map (\<lambda>k. (k, One (look new k))) (flat_keys coordsA)" using u(1) by simp
  then have "u_coords R = map (\<lambda>k. (k, look new k)) (flat_keys coordsA)"
    using u(2) make_coords_One[of "look new" "flat_keys coordsA"] by simp
  also have "\<dots> = new"
    using look_rebuild[of new] keysN dist by simp
  finally have "u_coords R = new" .
  then show "\<exists>new. intersect_loop (u_coords A) 0 (u_coords B) pad [] = Inr new \<and> u_coords R = new"
    using new by blast
qed


lemma map_of_entry: "distinct (map fst al) \<Longrightarrow> (k, v) \<in> set al \<Longrightarrow> map_of al k = Some v"
  by simp


lemma Coordinate_init_names:
  assumes init: "Coordinate_init coords kws = Inr c" and p: "(name, val) \<in> set coords"
  shows "set (comps name) \<subseteq> set valid_dims"
proof -
  have "set (comps name) \<subseteq> set (map fst (get_dims_map coords))"
    unfolding get_dims_map_keys_set using p by force
  also have "\<dots> = set (map fst (u_coords c))"
    using Coordinate_init_keys[OF init] Coordinate_init_parts(1)[OF init] by simp
  also have "\<dots> \<subseteq> set valid_dims" using Coordinate_init_valid[OF init] .
  finally show ?thesis .
qed

lemmas Coordinate_eval = Coordinate_init_def get_dims_map_def split_us_def unstack_dict_def
  getitem_def make_coord_def coords_validate_def validate_dim_def valid_dims_def Coord_size_def
  Coordinate_intersect_def spad_of_def stack_dict_def
  Coord_intersect_def Coord_intersect_check_def Coord_units_def Coord_bounds_def
  Coord_intersect_bounds_def GridCoord_bounds_def GridCoord_init_def
  GridCoord_intersect_bounds_def GridCoord_delta_def GridCoord_is_max_to_min_def
  py_slice_def default_kwargs_def

subsection \<open>Stacked components and their sizes\<close>

text \<open>
  What \<open>_coords_validate\<close> compares is the \<open>size\<close> property of the components: a compound
  key of two components whose \<open>size\<close> differs raises the size-mismatch error, and in a
  returned object the components of one stacked name have the same \<open>size\<close>.
\<close>

lemma Coordinate_init_size_property:
  "(k1 \<in> set valid_dims \<and> k2 \<in> set valid_dims \<and> k1 \<noteq> k2 \<and>
      Coord_size a = Inr m \<and> Coord_size b = Inr n \<and> m \<noteq> n \<longrightarrow>
      Coordinate_init [(k1 @ ''_'' @ k2, Many [a, b])] kws =
        Inl (StackedSizeMismatch k2 (k1 @ ''_'' @ k2)))
   \<and> (Coordinate_init coords kws = Inr c \<and>
      (j1, v1) \<in> set (u_coords c) \<and> (j2, v2) \<in> set (u_coords c) \<and>
      map_of (dims_map c) j1 = Some d \<and> map_of (dims_map c) j2 = Some d \<longrightarrow>
      Coord_size v1 = Coord_size v2)"
  using Coordinate_init_two_stacked Coordinate_init_sizes by blast

text \<open>
  Claim C6.  Constructing a stacked coordinate from components of unequal sizes should
  raise the size-mismatch error, and every constructed stacked coordinate should have
  components of equal size.  For array-backed components with 3 and 4 values the
  constructor raises.  For the uniform components with start 0, stop 50, step 10 (the six
  values 0, ..., 50) and start 0, stop 20, step 10 (the three values 0, 10, 20) the
  \<open>size\<close> property is 0 for both, the comparison passes, and the constructor returns a
  stacked coordinate whose components have 6 and 3 values.
\<close>

theorem Coordinate_init_stacked_unequal_accepted:
  "Coord_coordinates (Uniform \<lparr>start = 0, stop = 50, num = None, step = Some 10, epsg = None,
                      kw = default_kwargs\<rparr>) = Inr [0, 10, 20, 30, 40, 50]
   \<and> Coord_coordinates (Uniform \<lparr>start = 0, stop = 20, num = None, step = Some 10, epsg = None,
                      kw = default_kwargs\<rparr>) = Inr [0, 10, 20]
   \<and> Coord_size (Uniform \<lparr>start = 0, stop = 50, num = None, step = Some 10, epsg = None,
                      kw = default_kwargs\<rparr>) = Inr 0
   \<and> Coord_size (Uniform \<lparr>start = 0, stop = 20, num = None, step = Some 10, epsg = None,
                      kw = default_kwargs\<rparr>) = Inr 0
   \<and> Coordinate_init [(''lat_lon'', Many [Uniform \<lparr>start = 0, stop = 50, num = None, step = Some 10, epsg = None,
                      kw = default_kwargs\<rparr>, Uniform \<lparr>start = 0, stop = 20, num = None, step = Some 10, epsg = None,
                      kw = default_kwargs\<rparr>])]
        Coordinate_default_kwargs
      = Inr \<lparr>u_coords = [(''lat'', Uniform \<lparr>start = 0, stop = 50, num = None, step = Some 10, epsg = None,
                      kw = default_kwargs\<rparr>), (''lon'', Uniform \<lparr>start = 0, stop = 20, num = None, step = Some 10, epsg = None,
                      kw = default_kwargs\<rparr>)],
             dims_map = [(''lat'', ''lat_lon''), (''lon'', ''lat_lon'')],
             coordinate_kwargs = Coordinate_default_kwargs\<rparr>
   \<and> Coordinate_init
        [(''lat_lon'', Many [Grid [0, 1, 2] default_kwargs, Grid [10, 20, 30, 40] default_kwargs])]
        Coordinate_default_kwargs
      = Inl (StackedSizeMismatch ''lon'' ''lat_lon'')"
  by (simp add: Coordinate_eval Coord_coordinates_def UniformGridCoord_coordinates_def
      UniformGridCoord_delta_def UniformGridCoord_size_def arange_def upt_rec)

subsection \<open>Shape\<close>

text \<open>
  What \<open>get_shape\<close> collects is again the \<open>size\<close> property.  For every object the
  constructor returns, \<open>shape\<close> returns whenever the \<open>size\<close> of every component is
  defined; it has one entry per entry of \<open>dims\<close>, in that order; and entry \<open>i\<close> is the
  \<open>size\<close> of every component of the \<open>i\<close>-th dimension.
\<close>

lemma Coordinate_shape_size_property:
  assumes init: "Coordinate_init coords kws = Inr c"
  shows "((\<forall>p \<in> set (u_coords c). \<exists>n. Coord_size (snd p) = Inr n) \<longrightarrow>
            (\<exists>sh. Coordinate_shape c = Inr sh))
       \<and> (Coordinate_shape c = Inr sh \<longrightarrow>
            length sh = length (Coordinate_dims c)
          \<and> (\<forall>i < length sh.
                (\<exists>k v. (k, v) \<in> set (u_coords c)
                      \<and> map_of (dims_map c) k = Some (Coordinate_dims c ! i))
              \<and> (\<forall>k v. (k, v) \<in> set (u_coords c)
                      \<and> map_of (dims_map c) k = Some (Coordinate_dims c ! i)
                      \<longrightarrow> Coord_size v = Inr (sh ! i))))"
proof -
  have keys: "map fst (u_coords c) = map fst (dims_map c)" using Coordinate_init_keys[OF init] .
  have du: "distinct (map fst (u_coords c))" using Coordinate_init_distinct[OF init] .
  have dd: "distinct (map fst (dims_map c))" using du keys by simp
  have lu: "\<And>k v. (k, v) \<in> set (u_coords c) \<Longrightarrow> map_of (u_coords c) k = Some v"
    using du by simp
  have ld: "\<And>k d. (k, d) \<in> set (dims_map c) \<Longrightarrow> map_of (dims_map c) k = Some d"
    using dd by simp
  have ret: "\<exists>sh. Coordinate_shape c = Inr sh"
    if a: "\<forall>p \<in> set (u_coords c). \<exists>n. Coord_size (snd p) = Inr n"
  proof -
    have "\<And>k v. (k, v) \<in> set (u_coords c) \<Longrightarrow> \<exists>n. Coord_size v = Inr n"
      using a by fastforce
    from get_shape_loop_returns[OF keys lu ld this, where shape = "[]" and seen = "[]"]
    show ?thesis by (simp add: Coordinate_shape_def get_shape_def)
  qed
  have shp: "length sh = length (Coordinate_dims c)
          \<and> (\<forall>i < length sh.
                (\<exists>k v. (k, v) \<in> set (u_coords c)
                      \<and> map_of (dims_map c) k = Some (Coordinate_dims c ! i))
              \<and> (\<forall>k v. (k, v) \<in> set (u_coords c)
                      \<and> map_of (dims_map c) k = Some (Coordinate_dims c ! i)
                      \<longrightarrow> Coord_size v = Inr (sh ! i)))"
    if s: "Coordinate_shape c = Inr sh"
  proof -
    have g: "get_shape_loop (u_coords c) c [] [] = Inr sh"
      using s by (simp add: Coordinate_shape_def get_shape_def)
    have e: "length ([]::int list) = length ([]::string list)" by simp
    note ls = get_shape_loop_lockstep[OF g keys lu ld e]
    have len: "length sh = length (Coordinate_dims c)"
      using ls by (simp add: Coordinate_dims_def)
    have each: "(\<exists>k v. (k, v) \<in> set (u_coords c)
                      \<and> map_of (dims_map c) k = Some (Coordinate_dims c ! i))
              \<and> (\<forall>k v. (k, v) \<in> set (u_coords c)
                      \<and> map_of (dims_map c) k = Some (Coordinate_dims c ! i)
                      \<longrightarrow> Coord_size v = Inr (sh ! i))"
      if i: "i < length sh" for i
    proof -
      obtain k0 v0 where k0: "(k0, v0) \<in> set (u_coords c)"
        "(k0, Coordinate_dims c ! i) \<in> set (dims_map c)" "Coord_size v0 = Inr (sh ! i)"
        using ls i by (auto simp: Coordinate_dims_def)
      have m0: "map_of (dims_map c) k0 = Some (Coordinate_dims c ! i)" using ld[OF k0(2)] .
      have "Coord_size v = Inr (sh ! i)"
        if "(k, v) \<in> set (u_coords c) \<and> map_of (dims_map c) k = Some (Coordinate_dims c ! i)"
        for k v
        using Coordinate_init_sizes[OF init _ k0(1) _ m0, of k v] that k0(3) by simp
      then show ?thesis using k0(1) m0 by blast
    qed
    show ?thesis using len each by blast
  qed
  show ?thesis using ret shp by blast
qed

text \<open>
  Claim C7.  The shape should hold, per key and in \<open>dims\<close> order, the number of values
  of that key's coordinate (and \<open>size\<close> their product; neither \<open>Coordinate\<close> class of
  the source defines a \<open>size\<close>).  For array-backed coordinates with 3 and 4 values
  \<open>shape\<close> is \<open>[3, 4]\<close>.  For the one key \<open>lat\<close> holding the uniform coordinate with
  start 0, stop 50 and step 10, which has the six values 0, ..., 50, \<open>shape\<close> is \<open>[0]\<close>:
  \<open>get_shape\<close> appends the \<open>size\<close> property, which is 0 for this coordinate.
\<close>

theorem Coordinate_shape_uniform_zero:
  "Coordinate_init [(''lat'', One (Uniform \<lparr>start = 0, stop = 50, num = None, step = Some 10, epsg = None,
                      kw = default_kwargs\<rparr>))] Coordinate_default_kwargs
     = Inr \<lparr>u_coords = [(''lat'', Uniform \<lparr>start = 0, stop = 50, num = None, step = Some 10, epsg = None,
                      kw = default_kwargs\<rparr>)],
            dims_map = [(''lat'', ''lat'')],
            coordinate_kwargs = Coordinate_default_kwargs\<rparr>
   \<and> Coord_coordinates (Uniform \<lparr>start = 0, stop = 50, num = None, step = Some 10, epsg = None,
                      kw = default_kwargs\<rparr>) = Inr [0, 10, 20, 30, 40, 50]
   \<and> Coordinate_dims
        \<lparr>u_coords = [(''lat'', Uniform \<lparr>start = 0, stop = 50, num = None, step = Some 10, epsg = None,
                      kw = default_kwargs\<rparr>)],
         dims_map = [(''lat'', ''lat'')],
         coordinate_kwargs = Coordinate_default_kwargs\<rparr> = [''lat'']
   \<and> Coordinate_shape
        \<lparr>u_coords = [(''lat'', Uniform \<lparr>start = 0, stop = 50, num = None, step = Some 10, epsg = None,
                      kw = default_kwargs\<rparr>)],
         dims_map = [(''lat'', ''lat'')],
         coordinate_kwargs = Coordinate_default_kwargs\<rparr> = Inr [0]
   \<and> Coordinate_init [(''lat'', One (Grid [0, 1, 2] default_kwargs)),
                      (''lon'', One (Grid [10, 20, 30, 40] default_kwargs))]
                     Coordinate_default_kwargs
     = Inr \<lparr>u_coords = [(''lat'', Grid [0, 1, 2] default_kwargs),
                         (''lon'', Grid [10, 20, 30, 40] default_kwargs)],
            dims_map = [(''lat'', ''lat''), (''lon'', ''lon'')],
            coordinate_kwargs = Coordinate_default_kwargs\<rparr>
   \<and> Coordinate_shape
        \<lparr>u_coords = [(''lat'', Grid [0, 1, 2] default_kwargs),
                     (''lon'', Grid [10, 20, 30, 40] default_kwargs)],
         dims_map = [(''lat'', ''lat''), (''lon'', ''lon'')],
         coordinate_kwargs = Coordinate_default_kwargs\<rparr> = Inr [3, 4]"
  by (simp add: Coordinate_eval Coordinate_shape_def get_shape_def Coordinate_dims_def
      Coord_coordinates_def UniformGridCoord_coordinates_def UniformGridCoord_delta_def
      UniformGridCoord_size_def arange_def upt_rec)

subsection \<open>Valid dimension names\<close>

text \<open>
  Claim C9.  The constructor accepts only the dimension names time, lat, lon and alt:
  when it returns an object, every key of \<open>_coords\<close> is one of the four, and so is every
  component of every key of the \<open>coords\<close> dictionary it was given.  When a name is not
  one of the four and validation reaches it (the keys before it pass), the constructor
  raises the invalid-dimension error for that name.
\<close>

theorem Coordinate_init_valid_dims:
  "(Coordinate_init coords kws = Inr c \<longrightarrow> set (map fst (u_coords c)) \<subseteq> set valid_dims)
   \<and> (Coordinate_init coords kws = Inr c \<and> (name, val) \<in> set coords \<longrightarrow>
        set (comps name) \<subseteq> set valid_dims)
   \<and> (unstack_dict (get_dims_map coords) coords = Inr u \<and>
      make_coords u = Inr (pre @ (k, v) # post) \<and> k \<notin> set valid_dims \<and>
      coords_validate_loop (get_dims_map coords) pre [] Map.empty = Inr st \<longrightarrow>
      Coordinate_init coords kws = Inl (InvalidDimension k))
   \<and> valid_dims = [''time'', ''lat'', ''lon'', ''alt'']"
  using Coordinate_init_valid Coordinate_init_names Coordinate_init_invalid_dim valid_dims_def
  by blast

theorem Coordinate_init_valid_dims_witness:
  "Coordinate_init [(''lat'', One (Grid [0, 1, 2] default_kwargs))] Coordinate_default_kwargs
     = Inr \<lparr>u_coords = [(''lat'', Grid [0, 1, 2] default_kwargs)],
            dims_map = [(''lat'', ''lat'')],
            coordinate_kwargs = Coordinate_default_kwargs\<rparr>
   \<and> set (comps ''lat'') \<subseteq> set valid_dims
   \<and> unstack_dict
        (get_dims_map [(''lat'', One (Grid [0, 1, 2] default_kwargs)),
                       (''foo'', One (Grid [10, 20] default_kwargs))])
        [(''lat'', One (Grid [0, 1, 2] default_kwargs)),
         (''foo'', One (Grid [10, 20] default_kwargs))]
     = Inr [(''lat'', One (Grid [0, 1, 2] default_kwargs)),
            (''foo'', One (Grid [10, 20] default_kwargs))]
   \<and> make_coords [(''lat'', One (Grid [0, 1, 2] default_kwargs)),
                   (''foo'', One (Grid [10, 20] default_kwargs))]
     = Inr ([(''lat'', Grid [0, 1, 2] default_kwargs)]
            @ (''foo'', Grid [10, 20] default_kwargs) # [])
   \<and> ''foo'' \<notin> set valid_dims
   \<and> coords_validate_loop
        (get_dims_map [(''lat'', One (Grid [0, 1, 2] default_kwargs)),
                       (''foo'', One (Grid [10, 20] default_kwargs))])
        [(''lat'', Grid [0, 1, 2] default_kwargs)] [] Map.empty
     = Inr ([''lat''], Map.empty)
   \<and> Coordinate_init [(''lat'', One (Grid [0, 1, 2] default_kwargs)),
                      (''foo'', One (Grid [10, 20] default_kwargs))] Coordinate_default_kwargs
     = Inl (InvalidDimension ''foo'')"
proof -
  let ?g = "Grid [0, 1, 2] default_kwargs"
  let ?h = "Grid [10, 20] default_kwargs"
  let ?c = "\<lparr>u_coords = [(''lat'', ?g)], dims_map = [(''lat'', ''lat'')],
             coordinate_kwargs = Coordinate_default_kwargs\<rparr>"
  let ?X = "[(''lat'', One ?g), (''foo'', One ?h)]"
  have a1: "Coordinate_init [(''lat'', One ?g)] Coordinate_default_kwargs = Inr ?c"
    by (simp add: Coordinate_eval)
  have a2: "(''lat'', One ?g) \<in> set [(''lat'', One ?g)]" by simp
  have b1: "unstack_dict (get_dims_map ?X) ?X = Inr ?X"
    by (simp add: Coordinate_eval)
  have b2: "make_coords ?X = Inr ([(''lat'', ?g)] @ (''foo'', ?h) # [])"
    by (simp add: make_coord_def)
  have b3: "''foo'' \<notin> set valid_dims" by (simp add: valid_dims_def)
  have b4: "coords_validate_loop (get_dims_map ?X) [(''lat'', ?g)] [] Map.empty
              = Inr ([''lat''], Map.empty)"
    by (simp add: Coordinate_eval)
  note t1 = Coordinate_init_valid_dims
      [where coords = "[(''lat'', One ?g)]" and kws = Coordinate_default_kwargs and c = ?c
         and name = "''lat''" and val = "One ?g"]
  note t2 = Coordinate_init_valid_dims
      [where coords = ?X and kws = Coordinate_default_kwargs and u = ?X
         and pre = "[(''lat'', ?g)]" and k = "''foo''" and v = ?h and post = "[]"
         and st = "([''lat''], Map.empty)"]
  from t1 a1 a2 have r1: "set (comps ''lat'') \<subseteq> set valid_dims" by blast
  from t2 b1 b2 b3 b4
  have r2: "Coordinate_init ?X Coordinate_default_kwargs = Inl (InvalidDimension ''foo'')"
    by blast
  show ?thesis using a1 r1 b1 b2 b3 b4 r2 by blast
qed

subsection \<open>Intersection keeps the keys\<close>

text \<open>
  Claim C8, as stated: for every pair of coordinate objects \<open>A\<close> and \<open>B\<close>,
  \<open>A.intersect(B)\<close> returns an object with \<open>A\<close>'s key order in which the keys of \<open>A\<close> that
  \<open>B\<close> lacks are unchanged.  First, the call need not return: \<open>intersect\<close> trims every
  dimension on its own and hands the result to the constructor, so with \<open>lat\<close> and
  \<open>lon\<close> stacked and only \<open>lat\<close> in \<open>B\<close>, \<open>lat\<close> is trimmed to 3 values, \<open>lon\<close> keeps
  its 6, and the constructor raises the size-mismatch error.  Second, the constructor
  accepts a dictionary that names a dimension twice (\<open>lon_lat\<close> and \<open>lat_lon\<close>); for
  such an \<open>A\<close> and a \<open>B\<close> without keys, the result has the keys in the other order and
  \<open>lat\<close> holds what was \<open>lon\<close>'s coordinate.
\<close>

theorem Coordinate_intersect_counterexample:
  "Coordinate_init
     [(''lat_lon'', Many [Grid [0, 1, 2, 3, 4, 5] default_kwargs,
                          Grid [10, 11, 12, 13, 14, 15] default_kwargs])]
     Coordinate_default_kwargs
     = Inr \<lparr>u_coords = [(''lat'', Grid [0, 1, 2, 3, 4, 5] default_kwargs),
                         (''lon'', Grid [10, 11, 12, 13, 14, 15] default_kwargs)],
            dims_map = [(''lat'', ''lat_lon''), (''lon'', ''lat_lon'')],
            coordinate_kwargs = Coordinate_default_kwargs\<rparr>
   \<and> Coordinate_init [(''lat'', One (Grid [0, 1] default_kwargs))] Coordinate_default_kwargs
     = Inr \<lparr>u_coords = [(''lat'', Grid [0, 1] default_kwargs)],
            dims_map = [(''lat'', ''lat'')],
            coordinate_kwargs = Coordinate_default_kwargs\<rparr>
   \<and> Coordinate_intersect
       \<lparr>u_coords = [(''lat'', Grid [0, 1, 2, 3, 4, 5] default_kwargs),
                    (''lon'', Grid [10, 11, 12, 13, 14, 15] default_kwargs)],
        dims_map = [(''lat'', ''lat_lon''), (''lon'', ''lat_lon'')],
        coordinate_kwargs = Coordinate_default_kwargs\<rparr>
       \<lparr>u_coords = [(''lat'', Grid [0, 1] default_kwargs)],
        dims_map = [(''lat'', ''lat'')],
        coordinate_kwargs = Coordinate_default_kwargs\<rparr>
       (PadNumber 1)
     = Inl (StackedSizeMismatch ''lon'' ''lat_lon'')
   \<and> Coordinate_init
     [(''lon_lat'', Many [Grid [0, 1, 2] default_kwargs, Grid [10, 20, 30] default_kwargs]),
      (''lat_lon'', Many [Grid [0, 1, 2] default_kwargs, Grid [10, 20, 30] default_kwargs])]
     Coordinate_default_kwargs
     = Inr \<lparr>u_coords = [(''lon'', Grid [10, 20, 30] default_kwargs),
                         (''lat'', Grid [0, 1, 2] default_kwargs)],
            dims_map = [(''lon'', ''lat_lon''), (''lat'', ''lat_lon'')],
            coordinate_kwargs = Coordinate_default_kwargs\<rparr>
   \<and> Coordinate_init [] Coordinate_default_kwargs
     = Inr \<lparr>u_coords = [], dims_map = [], coordinate_kwargs = Coordinate_default_kwargs\<rparr>
   \<and> Coordinate_intersect
       \<lparr>u_coords = [(''lon'', Grid [10, 20, 30] default_kwargs),
                    (''lat'', Grid [0, 1, 2] default_kwargs)],
        dims_map = [(''lon'', ''lat_lon''), (''lat'', ''lat_lon'')],
        coordinate_kwargs = Coordinate_default_kwargs\<rparr>
       \<lparr>u_coords = [], dims_map = [], coordinate_kwargs = Coordinate_default_kwargs\<rparr>
       (PadNumber 1)
     = Inr \<lparr>u_coords = [(''lat'', Grid [10, 20, 30] default_kwargs),
                         (''lon'', Grid [0, 1, 2] default_kwargs)],
            dims_map = [(''lat'', ''lat_lon''), (''lon'', ''lat_lon'')],
            coordinate_kwargs = Coordinate_default_kwargs\<rparr>"
  by (simp add: Coordinate_eval upt_rec)

text \<open>
  Claim C8, amended.  Let \<open>A\<close> be constructed from a dictionary in which no dimension
  name occurs twice (counting the components of compound keys).  Whenever
  \<open>A.intersect(B)\<close> returns, for any object \<open>B\<close> and any padding, the result has the keys
  of \<open>A\<close> in \<open>A\<close>'s order, the same \<open>dims_map\<close> and \<open>dims\<close>, and every key of \<open>A\<close>
  that is not a key of \<open>B\<close> with its coordinate entry unchanged.
\<close>

theorem Coordinate_intersect_keys:
  assumes init: "Coordinate_init coordsA kws = Inr A"
    and dist: "distinct (flat_keys coordsA)"
    and isect: "Coordinate_intersect A B pad = Inr R"
  shows "map fst (u_coords R) = map fst (u_coords A)
       \<and> dims_map R = dims_map A
       \<and> Coordinate_dims R = Coordinate_dims A
       \<and> (\<forall>k v. (k, v) \<in> set (u_coords A) \<and> k \<notin> fst ` set (u_coords B)
             \<longrightarrow> (k, v) \<in> set (u_coords R))"
proof -
  have dm: "dims_map R = dims_map A"
    using Coordinate_intersect_structure(1)[OF init dist isect] .
  obtain new where new: "intersect_loop (u_coords A) 0 (u_coords B) pad [] = Inr new"
    and r: "u_coords R = new"
    using Coordinate_intersect_structure(2)[OF init dist isect] by blast
  have dA: "distinct (map fst [] @ map fst (u_coords A))"
    using Coordinate_init_distinct[OF init] by simp
  obtain ys where ys: "new = [] @ ys" "map fst ys = map fst (u_coords A)"
    "\<forall>k v. (k, v) \<in> set (u_coords A) \<and> map_of (u_coords B) k = None \<longrightarrow> (k, v) \<in> set ys"
    using intersect_loop_shape[OF new dA] by blast
  have keys: "map fst (u_coords R) = map fst (u_coords A)" using r ys by simp
  have pass: "(k, v) \<in> set (u_coords R)"
    if "(k, v) \<in> set (u_coords A) \<and> k \<notin> fst ` set (u_coords B)" for k v
  proof -
    have "map_of (u_coords B) k = None" using that by (simp add: map_of_eq_None_iff)
    then show ?thesis using ys that r by simp
  qed
  have "Coordinate_dims R = Coordinate_dims A" using dm by (simp add: Coordinate_dims_def)
  then show ?thesis using keys dm pass by blast
qed


theorem Coordinate_intersect_keys_witness:
  "Coordinate_init [(''lat'', One (Grid [0, 1, 2, 3, 4, 5] default_kwargs)),
                    (''lon'', One (Grid [10, 11, 12] default_kwargs))] Coordinate_default_kwargs
     = Inr \<lparr>u_coords = [(''lat'', Grid [0, 1, 2, 3, 4, 5] default_kwargs),
                         (''lon'', Grid [10, 11, 12] default_kwargs)],
            dims_map = [(''lat'', ''lat''), (''lon'', ''lon'')],
            coordinate_kwargs = Coordinate_default_kwargs\<rparr>
   \<and> distinct (flat_keys [(''lat'', One (Grid [0, 1, 2, 3, 4, 5] default_kwargs)),
                           (''lon'', One (Grid [10, 11, 12] default_kwargs))])
   \<and> Coordinate_intersect
       \<lparr>u_coords = [(''lat'', Grid [0, 1, 2, 3, 4, 5] default_kwargs),
                    (''lon'', Grid [10, 11, 12] default_kwargs)],
        dims_map = [(''lat'', ''lat''), (''lon'', ''lon'')],
        coordinate_kwargs = Coordinate_default_kwargs\<rparr>
       \<lparr>u_coords = [(''lat'', Grid [0, 1] default_kwargs)],
        dims_map = [(''lat'', ''lat'')],
        coordinate_kwargs = Coordinate_default_kwargs\<rparr>
       (PadNumber 1)
     = Inr \<lparr>u_coords = [(''lat'', Grid [0, 1, 2] default_kwargs),
                         (''lon'', Grid [10, 11, 12] default_kwargs)],
            dims_map = [(''lat'', ''lat''), (''lon'', ''lon'')],
            coordinate_kwargs = Coordinate_default_kwargs\<rparr>
   \<and> map fst (u_coords
         \<lparr>u_coords = [(''lat'', Grid [0, 1, 2] default_kwargs),
                      (''lon'', Grid [10, 11, 12] default_kwargs)],
          dims_map = [(''lat'', ''lat''), (''lon'', ''lon'')],
          coordinate_kwargs = Coordinate_default_kwargs\<rparr>) = [''lat'', ''lon'']
   \<and> (''lon'', Grid [10, 11, 12] default_kwargs)
       \<in> set (u_coords
         \<lparr>u_coords = [(''lat'', Grid [0, 1, 2] default_kwargs),
                      (''lon'', Grid [10, 11, 12] default_kwargs)],
          dims_map = [(''lat'', ''lat''), (''lon'', ''lon'')],
          coordinate_kwargs = Coordinate_default_kwargs\<rparr>)"
proof -
  let ?cs = "[(''lat'', One (Grid [0, 1, 2, 3, 4, 5] default_kwargs)),
              (''lon'', One (Grid [10, 11, 12] default_kwargs))]"
  let ?A = "\<lparr>u_coords = [(''lat'', Grid [0, 1, 2, 3, 4, 5] default_kwargs),
                         (''lon'', Grid [10, 11, 12] default_kwargs)],
            dims_map = [(''lat'', ''lat''), (''lon'', ''lon'')],
            coordinate_kwargs = Coordinate_default_kwargs\<rparr>"
  let ?B = "\<lparr>u_coords = [(''lat'', Grid [0, 1] default_kwargs)],
        dims_map = [(''lat'', ''lat'')],
        coordinate_kwargs = Coordinate_default_kwargs\<rparr>"
  let ?R = "\<lparr>u_coords = [(''lat'', Grid [0, 1, 2] default_kwargs),
                         (''lon'', Grid [10, 11, 12] default_kwargs)],
            dims_map = [(''lat'', ''lat''), (''lon'', ''lon'')],
            coordinate_kwargs = Coordinate_default_kwargs\<rparr>"
  have i: "Coordinate_init ?cs Coordinate_default_kwargs = Inr ?A"
    by (simp add: Coordinate_eval)
  have d: "distinct (flat_keys ?cs)" by (simp add: flat_keys_def comps_def)
  have x: "Coordinate_intersect ?A ?B (PadNumber 1) = Inr ?R"
    by (simp add: Coordinate_eval upt_rec)
  note t = Coordinate_intersect_keys[OF i d x]
  have k: "map fst (u_coords ?R) = [''lat'', ''lon'']" using t by simp
  have "(''lon'', Grid [10, 11, 12] default_kwargs) \<in> set (u_coords ?A)
        \<and> ''lon'' \<notin> fst ` set (u_coords ?B)" by simp
  with t have p: "(''lon'', Grid [10, 11, 12] default_kwargs) \<in> set (u_coords ?R)" by blast
  show ?thesis using i d x k p by blast
qed

end
